theory Spec2Isabelle
  imports Main
begin

section \<open>The Pomodoro timer engine of app.js\<close>

text \<open>
  The theory embeds the class \<open>PomodoroTimer\<close> of \<^verbatim>\<open>app.js\<close> (lines 45 to 188), the
  collaborators \<open>beep\<close> and \<open>notify\<close> as far as the engine calls them, and the click
  handler of the mode buttons (lines 461 to 479).

  Numbers. Every number the engine computes with is an integer: \<open>Date.now()\<close> is a count
  of milliseconds, the minutes and the cycles per round of a settings record are integers
  (\<open>clampInt\<close> parses them with \<open>parseInt\<close>), and the engine only adds, subtracts, compares
  and multiplies by 60 and 1000. On integers of this size JavaScript's doubles are exact,
  so the model computes on \<open>int\<close>.

  Time. The model has no clock of its own. Each call of \<open>Date.now()\<close> in the source is
  an argument of the function that makes the call, in the order of the calls; a function
  that reaches \<open>Date.now()\<close> only on some paths ignores the argument on the others.

  Effects. What the engine does to its host is written to a trace, in order: creating and
  clearing the interval timer, calling \<open>beep\<close>, calling \<open>notify\<close>, and calling the
  subscribed listener with a snapshot.
\<close>

subsection \<open>Data\<close>

text \<open>\<open>Mode\<close> of \<^verbatim>\<open>app.js\<close>, lines 39 to 43, with the strings the enum carries.\<close>

datatype Mode = Work | Short | Long

fun modeLabel :: "Mode \<Rightarrow> string" where
  "modeLabel Work = ''Work''"
| "modeLabel Short = ''Short Break''"
| "modeLabel Long = ''Long Break''"

text \<open>The fields of a settings object that the engine reads.\<close>

record settings =
  workMinutes :: int
  shortMinutes :: int
  longMinutes :: int
  cyclesPerRound :: int
  autoStart :: bool

text \<open>\<open>defaultSettings\<close>, lines 10 to 22.\<close>

definition defaultSettings :: settings where
  "defaultSettings =
     \<lparr>workMinutes = 25, shortMinutes = 5, longMinutes = 15, cyclesPerRound = 4,
      autoStart = False\<rparr>"

text \<open>The object that \<open>_emit\<close> hands to the listener, lines 178 to 186.\<close>

datatype snapshot = Snapshot
  (snap_mode: Mode)
  (snap_remainingMs: int)
  (snap_cycleInRound: int)
  (snap_round: int)
  (snap_totalMs: int)
  (snap_isRunning: bool)
  (snap_modeChanged: bool)

text \<open>
  The calls the engine makes outward. \<open>SetInterval h\<close> is a call of \<open>setInterval\<close> that
  returned the handle \<open>h\<close>, \<open>ClearInterval h\<close> a call of \<open>clearInterval\<close> on it, \<open>Beep\<close>
  a call of \<open>beep()\<close> (which takes sound and volume from the page's own settings
  variable, not from the engine), \<open>Notify title body\<close> a call of \<open>notify\<close>, and \<open>Emit\<close>
  a call of the listener.
\<close>

datatype event =
  SetInterval nat
| ClearInterval nat
| Beep
| Notify string string
| Emit snapshot

text \<open>
  The fields of a \<open>PomodoroTimer\<close>, in the order of the constructor. The field \<open>round\<close>
  of the source is \<open>roundN\<close> here (\<open>round\<close> is a function of HOL). \<open>listener\<close> says
  whether \<open>_listener\<close> has been set; the listener of the page is \<open>render\<close>, which writes
  to the document only. The last two fields belong to the host: \<open>timerSeq\<close> is the
  number of interval timers created so far (a browser hands out the handles 1, 2, 3, ...),
  and \<open>trace\<close> is the list of outward calls made so far.
\<close>

record timer =
  settings :: settings
  mode :: Mode
  cycleInRound :: int
  roundN :: int
  isRunning :: bool
  startedAt :: "int option"
  endAt :: "int option"
  remainingMs :: int
  intervalId :: "nat option"
  lastTick :: "int option"
  listener :: bool
  timerSeq :: nat
  trace :: "event list"

subsection \<open>The methods of the engine\<close>

text \<open>\<open>_modeToMs\<close>, lines 70 to 77.\<close>

definition modeToMs :: "timer \<Rightarrow> Mode \<Rightarrow> int" where
  "modeToMs t m =
     (let mins = (if m = Work then workMinutes (settings t)
                  else if m = Short then shortMinutes (settings t)
                  else longMinutes (settings t))
      in mins * 60 * 1000)"

text \<open>The constructor, lines 46 to 57.\<close>

definition constructor :: "settings \<Rightarrow> timer" where
  "constructor cfg =
     (let t = \<lparr>settings = cfg, mode = Work, cycleInRound = 1, roundN = 1,
               isRunning = False, startedAt = None, endAt = None, remainingMs = 0,
               intervalId = None, lastTick = None, listener = False,
               timerSeq = 0, trace = []\<rparr>
      in t\<lparr>remainingMs := modeToMs t (mode t)\<rparr>)"

text \<open>\<open>onChange\<close>, lines 173 to 175.\<close>

definition onChange :: "timer \<Rightarrow> timer" where
  "onChange t = t\<lparr>listener := True\<rparr>"

text \<open>\<open>_emit\<close>, lines 177 to 187: nothing happens when no listener is set.\<close>

definition emit :: "bool \<Rightarrow> timer \<Rightarrow> timer" where
  "emit modeChanged t =
     (if listener t
      then t\<lparr>trace := trace t @
             [Emit (Snapshot (mode t) (remainingMs t) (cycleInRound t) (roundN t)
                      (modeToMs t (mode t)) (isRunning t) modeChanged)]\<rparr>
      else t)"

text \<open>
  \<open>_ensureTicker\<close>, lines 116 to 132, without the body of the callback (which is
  \<open>tick\<close> below): an interval timer is created only when none is held.
\<close>

definition ensureTicker :: "timer \<Rightarrow> timer" where
  "ensureTicker t =
     (if intervalId t \<noteq> None then t
      else (let h = Suc (timerSeq t)
            in t\<lparr>intervalId := Some h, timerSeq := h,
                 trace := trace t @ [SetInterval h]\<rparr>))"

text \<open>\<open>start\<close>, lines 79 to 88.\<close>

definition start :: "int \<Rightarrow> timer \<Rightarrow> timer" where
  "start now t =
     (if isRunning t then t
      else ensureTicker
             (t\<lparr>isRunning := True, startedAt := Some now,
                endAt := Some (now + remainingMs t), lastTick := Some now\<rparr>))"

text \<open>\<open>pause\<close>, lines 90 to 103.\<close>

definition pause :: "int \<Rightarrow> timer \<Rightarrow> timer" where
  "pause now t =
     (if \<not> isRunning t then t
      else
        (let t1 = t\<lparr>isRunning := False\<rparr>;
             t2 = (case endAt t1 of
                     Some e \<Rightarrow> t1\<lparr>remainingMs := max 0 (e - now)\<rparr>
                   | None \<Rightarrow> t1);
             t3 = t2\<lparr>endAt := None\<rparr>
         in (case intervalId t3 of
               Some h \<Rightarrow> t3\<lparr>intervalId := None, trace := trace t3 @ [ClearInterval h]\<rparr>
             | None \<Rightarrow> t3)))"

text \<open>\<open>reset\<close>, lines 105 to 110.\<close>

definition reset :: "int \<Rightarrow> timer \<Rightarrow> timer" where
  "reset now t =
     (let t1 = pause now t
      in t1\<lparr>remainingMs := modeToMs t1 (mode t1), startedAt := None, endAt := None\<rparr>)"

text \<open>\<open>_advanceMode\<close>, lines 141 to 171.\<close>

definition advanceMode :: "int \<Rightarrow> timer \<Rightarrow> timer" where
  "advanceMode now t =
     (let t1 = (if mode t = Work
                then (let isEndOfRound = (cycleInRound t \<ge> cyclesPerRound (settings t));
                          t0 = t\<lparr>mode := (if isEndOfRound then Long else Short)\<rparr>
                      in if isEndOfRound
                         then t0\<lparr>cycleInRound := 1, roundN := roundN t0 + 1\<rparr>
                         else t0\<lparr>cycleInRound := cycleInRound t0 + 1\<rparr>)
                else t\<lparr>mode := Work\<rparr>);
          t2 = t1\<lparr>remainingMs := modeToMs t1 (mode t1)\<rparr>;
          t3 = (if autoStart (settings t2)
                then ensureTicker
                       (t2\<lparr>isRunning := True, startedAt := Some now,
                           endAt := Some (now + remainingMs t2)\<rparr>)
                else t2\<lparr>isRunning := False, startedAt := None, endAt := None\<rparr>)
      in emit True t3)"

text \<open>\<open>skip\<close>, lines 112 to 114.\<close>

definition skip :: "int \<Rightarrow> timer \<Rightarrow> timer" where
  "skip now t = advanceMode now t"

text \<open>\<open>beep\<close> (lines 305 to 307) and \<open>notify\<close> (lines 309 to 322), as calls.\<close>

definition beep :: "timer \<Rightarrow> timer" where
  "beep t = t\<lparr>trace := trace t @ [Beep]\<rparr>"

definition notify :: "string \<Rightarrow> string \<Rightarrow> timer \<Rightarrow> timer" where
  "notify title body t = t\<lparr>trace := trace t @ [Notify title body]\<rparr>"

text \<open>
  \<open>_onComplete\<close>, lines 134 to 139. The first time is read by \<open>pause\<close>, the second by
  \<open>_advanceMode\<close>.
\<close>

definition onComplete :: "int \<Rightarrow> int \<Rightarrow> timer \<Rightarrow> timer" where
  "onComplete nowP nowA t =
     (let t1 = pause nowP t;
          t2 = beep t1;
          t3 = notify (modeLabel (mode t2) @ '' completed'') ''Time to switch!'' t2
      in advanceMode nowA t3)"

text \<open>
  The callback that \<open>_ensureTicker\<close> hands to \<open>setInterval\<close>, lines 118 to 131. The
  first time is read by the callback, the other two by \<open>_onComplete\<close>.
\<close>

definition tick :: "int \<Rightarrow> int \<Rightarrow> int \<Rightarrow> timer \<Rightarrow> timer" where
  "tick now nowP nowA t =
     (if \<not> isRunning t then t
      else
        (let t1 = t\<lparr>lastTick := Some now\<rparr>;
             t2 = (case endAt t1 of
                     Some e \<Rightarrow> t1\<lparr>remainingMs := max 0 (e - now)\<rparr>
                   | None \<Rightarrow> t1)
         in if remainingMs t2 = 0 then onComplete nowP nowA t2 else emit False t2))"

text \<open>
  \<open>setSettings\<close>, lines 59 to 68. The first time is read by \<open>pause\<close>, the second by
  \<open>start\<close>.
\<close>

definition setSettings :: "settings \<Rightarrow> int \<Rightarrow> int \<Rightarrow> timer \<Rightarrow> timer" where
  "setSettings nextSettings nowP nowS t =
     (let preservedRunning = isRunning t;
          t1 = pause nowP t;
          t2 = t1\<lparr>settings := nextSettings\<rparr>;
          t3 = t2\<lparr>remainingMs := modeToMs t2 (mode t2)\<rparr>;
          t4 = (if preservedRunning then start nowS t3 else t3)
      in emit True t4)"

text \<open>
  The click handler of a mode button, lines 461 to 479 (the spec's \<open>setMode\<close>). The
  target mode is the button's \<open>data-mode\<close> attribute, one of the three labels.
\<close>

definition setMode :: "Mode \<Rightarrow> int \<Rightarrow> timer \<Rightarrow> timer" where
  "setMode targetMode now t =
     (let t1 = (if isRunning t then pause now t else t);
          t2 = t1\<lparr>mode := targetMode\<rparr>;
          t3 = t2\<lparr>remainingMs := modeToMs t2 targetMode, startedAt := None, endAt := None\<rparr>
      in emit True t3)"

subsection \<open>Sequences of operations\<close>

text \<open>
  An operation is a call of a method of the engine from outside, a click on a mode
  button, or a firing of the interval timer. Each carries the times its calls of
  \<open>Date.now()\<close> return. The handlers of the page compose these: the start/pause button
  is \<open>Pause\<close> or \<open>Start\<close> followed by \<open>EmitOp False\<close>, the reset button is \<open>Reset\<close>
  followed by \<open>EmitOp False\<close>, the skip button is \<open>Skip\<close>, and saving the settings
  dialog is \<open>SetSettings\<close> followed by \<open>EmitOp True\<close>.
\<close>

datatype op =
  Start int
| Pause int
| Reset int
| Skip int
| Tick int int int
| SetSettings settings int int
| SetMode Mode int
| EmitOp bool
| OnChange

text \<open>The interval timer fires only while the engine holds one.\<close>

fun step :: "op \<Rightarrow> timer \<Rightarrow> timer" where
  "step (Start now) t = start now t"
| "step (Pause now) t = pause now t"
| "step (Reset now) t = reset now t"
| "step (Skip now) t = skip now t"
| "step (Tick now nowP nowA) t = (if intervalId t = None then t else tick now nowP nowA t)"
| "step (SetSettings cfg nowP nowS) t = setSettings cfg nowP nowS t"
| "step (SetMode m now) t = setMode m now t"
| "step (EmitOp mc) t = emit mc t"
| "step OnChange t = onChange t"

fun run :: "op list \<Rightarrow> timer \<Rightarrow> timer" where
  "run [] t = t"
| "run (x # xs) t = run xs (step x t)"

text \<open>The times an operation reads, in the order it reads them.\<close>

fun readings :: "op \<Rightarrow> int list" where
  "readings (Start now) = [now]"
| "readings (Pause now) = [now]"
| "readings (Reset now) = [now]"
| "readings (Skip now) = [now]"
| "readings (Tick now nowP nowA) = [now, nowP, nowA]"
| "readings (SetSettings cfg nowP nowS) = [nowP, nowS]"
| "readings (SetMode m now) = [now]"
| "readings (EmitOp mc) = []"
| "readings OnChange = []"

text \<open>
  A clock that never runs backwards: the readings of a sequence of operations, taken in
  order, do not decrease.
\<close>

definition clockOk :: "op list \<Rightarrow> bool" where
  "clockOk ops = sorted (concat (map readings ops))"

text \<open>
  The invariant of a session configuration, section 3 of the spec: every duration is at
  least one minute and a round has at least one cycle.
\<close>

definition validSettings :: "settings \<Rightarrow> bool" where
  "validSettings cfg =
     (1 \<le> workMinutes cfg \<and> 1 \<le> shortMinutes cfg \<and> 1 \<le> longMinutes cfg \<and>
      1 \<le> cyclesPerRound cfg)"

fun validOp :: "op \<Rightarrow> bool" where
  "validOp (SetSettings cfg nowP nowS) = validSettings cfg"
| "validOp x = True"

subsection \<open>Predicates used in the statements and proofs\<close>

text \<open>A click on a mode button, as opposed to every other operation.\<close>

fun isSetMode :: "op \<Rightarrow> bool" where
  "isSetMode (SetMode m now) = True"
| "isSetMode x = False"

text \<open>
  A change of settings fits the state it meets when the new number of cycles per round is
  not below the current cycle; \<open>cyclesFit\<close> says so of every change of settings in a
  sequence of operations, each taken in the state the sequence has reached.
\<close>

fun fitsOp :: "op \<Rightarrow> timer \<Rightarrow> bool" where
  "fitsOp (SetSettings cfg nowP nowS) t = (cycleInRound t \<le> cyclesPerRound cfg)"
| "fitsOp x t = True"

fun cyclesFit :: "op list \<Rightarrow> timer \<Rightarrow> bool" where
  "cyclesFit [] t = True"
| "cyclesFit (x # xs) t = (fitsOp x t \<and> cyclesFit xs (step x t))"

text \<open>
  The remaining time after lines 123 to 125 of the interval callback: recomputed from
  \<open>endAt\<close> when it is set, left alone otherwise.
\<close>

definition recomputed :: "int \<Rightarrow> timer \<Rightarrow> int" where
  "recomputed now t =
     (case endAt t of Some e \<Rightarrow> max 0 (e - now) | None \<Rightarrow> remainingMs t)"

text \<open>
  The operations that reach \<open>_advanceMode\<close>: a skip, and a firing of the interval timer
  that finds the engine running with no time left.
\<close>

definition advances :: "op \<Rightarrow> timer \<Rightarrow> bool" where
  "advances x t =
     (case x of
        Skip now \<Rightarrow> True
      | Tick now nowP nowA \<Rightarrow> intervalId t \<noteq> None \<and> isRunning t \<and> recomputed now t = 0
      | _ \<Rightarrow> False)"

text \<open>The cycle counter lies between 1 and the cycles per round of the settings.\<close>

definition inRound :: "timer \<Rightarrow> bool" where
  "inRound t = (1 \<le> cycleInRound t \<and> cycleInRound t \<le> cyclesPerRound (settings t))"

text \<open>\<open>endAt\<close> is set exactly when the engine is running.\<close>

definition paired :: "timer \<Rightarrow> bool" where
  "paired t = (isRunning t \<longleftrightarrow> endAt t \<noteq> None)"

text \<open>
  The invariant of the remaining time, relative to a time \<open>T\<close> that no later reading of
  the clock falls below: the settings are valid, \<open>endAt\<close> is set exactly when the engine
  is running, the remaining time lies between 0 and the full duration of the mode, and
  the session ends no later than a full duration after \<open>T\<close>.
\<close>

definition bounded :: "int \<Rightarrow> timer \<Rightarrow> bool" where
  "bounded T t =
     (validSettings (settings t) \<and> paired t \<and>
      0 \<le> remainingMs t \<and> remainingMs t \<le> modeToMs t (mode t) \<and>
      (\<forall>e. endAt t = Some e \<longrightarrow> e - T \<le> modeToMs t (mode t)))"

text \<open>The object that \<open>_emit\<close> builds from the fields of the engine, lines 178 to 186.\<close>

definition snapshotOf :: "bool \<Rightarrow> timer \<Rightarrow> snapshot" where
  "snapshotOf modeChanged t =
     Snapshot (mode t) (remainingMs t) (cycleInRound t) (roundN t) (modeToMs t (mode t))
       (isRunning t) modeChanged"

text \<open>The calls of the two completion collaborators, \<open>beep\<close> and \<open>notify\<close>.\<close>

fun isAlarm :: "event \<Rightarrow> bool" where
  "isAlarm Beep = True"
| "isAlarm (Notify title body) = True"
| "isAlarm x = False"

subsection \<open>The earlier copy of the engine\<close>

text \<open>
  The second JavaScript file of the repository (\<^verbatim>\<open>src/unnamed/part_000\<close>) is an earlier
  copy of \<^verbatim>\<open>app.js\<close>. Its \<open>PomodoroTimer\<close> (lines 42 to 156) has no \<open>endAt\<close> and no
  auto-start, and the page has no mode buttons. The methods that differ from those above
  are embedded here on the same record, whose \<open>endAt\<close> they never touch: \<open>start\<close> (lines
  73 to 80), \<open>pause\<close> (82 to 89), \<open>_advanceMode\<close> (123 to 139), \<open>_onComplete\<close> (116 to
  121), the interval callback (102 to 113) and \<open>setSettings\<close> (55 to 62). In the callback
  \<open>now - this._lastTick\<close> with \<open>_lastTick\<close> still \<open>null\<close> is \<open>now - 0\<close>. The last
  section evaluates the interval callback and \<open>setSettings\<close> of the earlier copy and
  compares them with those of \<^verbatim>\<open>app.js\<close>.
\<close>

definition legacy_start :: "int \<Rightarrow> timer \<Rightarrow> timer" where
  "legacy_start now t =
     (if isRunning t then t
      else ensureTicker (t\<lparr>isRunning := True, startedAt := Some now, lastTick := Some now\<rparr>))"

definition legacy_pause :: "timer \<Rightarrow> timer" where
  "legacy_pause t =
     (if \<not> isRunning t then t
      else
        (let t1 = t\<lparr>isRunning := False\<rparr>
         in (case intervalId t1 of
               Some h \<Rightarrow> t1\<lparr>intervalId := None, trace := trace t1 @ [ClearInterval h]\<rparr>
             | None \<Rightarrow> t1)))"

definition legacy_advanceMode :: "timer \<Rightarrow> timer" where
  "legacy_advanceMode t =
     (let t1 = (if mode t = Work
                then (let isEndOfRound = (cycleInRound t \<ge> cyclesPerRound (settings t));
                          t0 = t\<lparr>mode := (if isEndOfRound then Long else Short)\<rparr>
                      in if isEndOfRound
                         then t0\<lparr>cycleInRound := 1, roundN := roundN t0 + 1\<rparr>
                         else t0\<lparr>cycleInRound := cycleInRound t0 + 1\<rparr>)
                else t\<lparr>mode := Work\<rparr>);
          t2 = t1\<lparr>remainingMs := modeToMs t1 (mode t1)\<rparr>
      in emit True t2)"

definition legacy_onComplete :: "timer \<Rightarrow> timer" where
  "legacy_onComplete t =
     (let t1 = legacy_pause t;
          t2 = beep t1;
          t3 = notify (modeLabel (mode t2) @ '' completed'') ''Time to switch!'' t2
      in legacy_advanceMode t3)"

definition legacy_tick :: "int \<Rightarrow> timer \<Rightarrow> timer" where
  "legacy_tick now t =
     (if \<not> isRunning t then t
      else
        (let delta = max 0 (now - (case lastTick t of Some l \<Rightarrow> l | None \<Rightarrow> 0));
             t1 = t\<lparr>lastTick := Some now\<rparr>;
             t2 = t1\<lparr>remainingMs := max 0 (remainingMs t1 - delta)\<rparr>
         in if remainingMs t2 = 0 then legacy_onComplete t2 else emit False t2))"

definition legacy_setSettings :: "settings \<Rightarrow> int \<Rightarrow> timer \<Rightarrow> timer" where
  "legacy_setSettings nextSettings nowS t =
     (let preservedRunning = isRunning t;
          t1 = legacy_pause t;
          t2 = t1\<lparr>settings := nextSettings\<rparr>;
          t3 = t2\<lparr>remainingMs := modeToMs t2 (mode t2)\<rparr>
      in if preservedRunning then legacy_start nowS t3 else t3)"

text \<open>The calls of the listener.\<close>

fun isEmit :: "event \<Rightarrow> bool" where
  "isEmit (Emit s) = True"
| "isEmit x = False"

section \<open>Mode advance\<close>

lemma modeToMs_simps:
  "modeToMs t Work = workMinutes (settings t) * 60000"
  "modeToMs t Short = shortMinutes (settings t) * 60000"
  "modeToMs t Long = longMinutes (settings t) * 60000"
  by (simp_all add: modeToMs_def)

lemma emit_fields:
  "settings (emit mc t) = settings t" "mode (emit mc t) = mode t"
  "cycleInRound (emit mc t) = cycleInRound t" "roundN (emit mc t) = roundN t"
  "isRunning (emit mc t) = isRunning t" "startedAt (emit mc t) = startedAt t"
  "endAt (emit mc t) = endAt t" "remainingMs (emit mc t) = remainingMs t"
  "intervalId (emit mc t) = intervalId t" "lastTick (emit mc t) = lastTick t"
  "listener (emit mc t) = listener t" "timerSeq (emit mc t) = timerSeq t"
  by (simp_all add: emit_def)

lemma ensureTicker_fields:
  "settings (ensureTicker t) = settings t" "mode (ensureTicker t) = mode t"
  "cycleInRound (ensureTicker t) = cycleInRound t" "roundN (ensureTicker t) = roundN t"
  "isRunning (ensureTicker t) = isRunning t" "startedAt (ensureTicker t) = startedAt t"
  "endAt (ensureTicker t) = endAt t" "remainingMs (ensureTicker t) = remainingMs t"
  "lastTick (ensureTicker t) = lastTick t" "listener (ensureTicker t) = listener t"
  "intervalId (ensureTicker t) \<noteq> None"
  by (simp_all add: ensureTicker_def Let_def)

lemma modeToMs_cong:
  "settings t' = settings t \<Longrightarrow> modeToMs t' m = modeToMs t m"
  by (simp add: modeToMs_def)

lemma pause_fields:
  "settings (pause now t) = settings t" "mode (pause now t) = mode t"
  "cycleInRound (pause now t) = cycleInRound t" "roundN (pause now t) = roundN t"
  "listener (pause now t) = listener t" "timerSeq (pause now t) = timerSeq t"
  "\<not> isRunning (pause now t)"
  by (simp_all add: pause_def Let_def split: option.splits)

lemma pause_running:
  "isRunning t \<Longrightarrow> endAt (pause now t) = None"
  "isRunning t \<Longrightarrow> intervalId (pause now t) = None"
  "isRunning t \<Longrightarrow> startedAt (pause now t) = startedAt t"
  "isRunning t \<Longrightarrow> lastTick (pause now t) = lastTick t"
  "isRunning t \<Longrightarrow> remainingMs (pause now t) =
     (case endAt t of Some e \<Rightarrow> max 0 (e - now) | None \<Rightarrow> remainingMs t)"
  "isRunning t \<Longrightarrow> trace (pause now t) =
     trace t @ (case intervalId t of Some h \<Rightarrow> [ClearInterval h] | None \<Rightarrow> [])"
  by (simp_all add: pause_def Let_def split: option.splits)

lemma pause_idle: "\<not> isRunning t \<Longrightarrow> pause now t = t"
  by (simp add: pause_def)

lemma advanceMode_mode:
  "mode (advanceMode now t) =
     (if mode t = Work
      then (if cycleInRound t \<ge> cyclesPerRound (settings t) then Long else Short)
      else Work)"
  by (simp add: advanceMode_def Let_def emit_fields ensureTicker_fields)

lemma advanceMode_cycleInRound:
  "cycleInRound (advanceMode now t) =
     (if mode t = Work
      then (if cycleInRound t \<ge> cyclesPerRound (settings t) then 1 else cycleInRound t + 1)
      else cycleInRound t)"
  by (simp add: advanceMode_def Let_def emit_fields ensureTicker_fields)

lemma advanceMode_roundN:
  "roundN (advanceMode now t) =
     (if mode t = Work \<and> cycleInRound t \<ge> cyclesPerRound (settings t)
      then roundN t + 1 else roundN t)"
  by (simp add: advanceMode_def Let_def emit_fields ensureTicker_fields)

lemma advanceMode_settings: "settings (advanceMode now t) = settings t"
  by (simp add: advanceMode_def Let_def emit_fields ensureTicker_fields)

lemma advanceMode_listener: "listener (advanceMode now t) = listener t"
  by (simp add: advanceMode_def Let_def emit_fields ensureTicker_fields)

lemma advanceMode_remainingMs:
  "remainingMs (advanceMode now t) = modeToMs t (mode (advanceMode now t))"
  by (simp add: advanceMode_def Let_def emit_fields ensureTicker_fields modeToMs_def)

lemma advanceMode_isRunning: "isRunning (advanceMode now t) = autoStart (settings t)"
  by (simp add: advanceMode_def Let_def emit_fields ensureTicker_fields)

lemma advanceMode_endAt:
  "endAt (advanceMode now t) =
     (if autoStart (settings t) then Some (now + remainingMs (advanceMode now t)) else None)"
  by (simp add: advanceMode_def Let_def emit_fields ensureTicker_fields modeToMs_def)

lemma advanceMode_intervalId:
  "intervalId (advanceMode now t) =
     (if autoStart (settings t) \<and> intervalId t = None then Some (Suc (timerSeq t))
      else intervalId t)"
  by (simp add: advanceMode_def Let_def emit_def ensureTicker_def)

lemma onComplete_unfold:
  "onComplete nowP nowA t =
     advanceMode nowA
       (notify (modeLabel (mode t) @ '' completed'') ''Time to switch!'' (beep (pause nowP t)))"
  by (simp add: onComplete_def Let_def beep_def pause_fields)

text \<open>
  C1. Mode advance, for every state of the engine and every time. From Work the next mode
  is Long when \<open>cycleInRound \<ge> cyclesPerRound\<close>, with the cycle back at 1 and the round
  one higher, and Short otherwise, with the cycle one higher; from a break the next mode
  is Work and both counters stay. Afterwards the remaining time is the full duration of
  the new mode. With auto-start the engine is running and \<open>endAt\<close> is set (to the time
  read plus that duration); without it the engine is paused and \<open>endAt\<close> is cleared.
  \<open>skip\<close> is this function, and natural completion ends with it.
\<close>

theorem C1_advanceMode:
  "(mode t = Work \<and> cycleInRound t \<ge> cyclesPerRound (settings t) \<longrightarrow>
      mode (advanceMode now t) = Long \<and> cycleInRound (advanceMode now t) = 1 \<and>
      roundN (advanceMode now t) = roundN t + 1) \<and>
   (mode t = Work \<and> cycleInRound t < cyclesPerRound (settings t) \<longrightarrow>
      mode (advanceMode now t) = Short \<and>
      cycleInRound (advanceMode now t) = cycleInRound t + 1 \<and>
      roundN (advanceMode now t) = roundN t) \<and>
   (mode t = Short \<or> mode t = Long \<longrightarrow>
      mode (advanceMode now t) = Work \<and>
      cycleInRound (advanceMode now t) = cycleInRound t \<and>
      roundN (advanceMode now t) = roundN t) \<and>
   settings (advanceMode now t) = settings t \<and>
   remainingMs (advanceMode now t) = modeToMs (advanceMode now t) (mode (advanceMode now t)) \<and>
   (autoStart (settings t) \<longrightarrow>
      isRunning (advanceMode now t) \<and>
      endAt (advanceMode now t) = Some (now + remainingMs (advanceMode now t))) \<and>
   (\<not> autoStart (settings t) \<longrightarrow>
      \<not> isRunning (advanceMode now t) \<and> endAt (advanceMode now t) = None) \<and>
   skip now t = advanceMode now t \<and>
   onComplete nowP now t =
     advanceMode now
       (notify (modeLabel (mode t) @ '' completed'') ''Time to switch!'' (beep (pause nowP t)))"
proof -
  have rem: "remainingMs (advanceMode now t) =
      modeToMs (advanceMode now t) (mode (advanceMode now t))"
    using advanceMode_remainingMs [of now t]
      modeToMs_cong [OF advanceMode_settings, of now t "mode (advanceMode now t)"]
    by simp
  have e: "autoStart (settings t) \<Longrightarrow>
      endAt (advanceMode now t) = Some (now + remainingMs (advanceMode now t))"
    using advanceMode_endAt [of now t] by simp
  have e': "\<not> autoStart (settings t) \<Longrightarrow> endAt (advanceMode now t) = None"
    using advanceMode_endAt [of now t] by simp
  show ?thesis
    using rem e e'
    by (simp add: advanceMode_mode advanceMode_cycleInRound advanceMode_roundN
        advanceMode_settings advanceMode_isRunning skip_def onComplete_unfold)
qed

theorem C1_advanceMode_witness:
  "mode (constructor defaultSettings) = Work \<and>
   cycleInRound (constructor defaultSettings) <
     cyclesPerRound (settings (constructor defaultSettings)) \<and>
   \<not> autoStart (settings (constructor defaultSettings)) \<and>
   mode (advanceMode 1000 (constructor defaultSettings)) = Short \<and>
   cycleInRound (advanceMode 1000 (constructor defaultSettings)) = 2 \<and>
   roundN (advanceMode 1000 (constructor defaultSettings)) = 1 \<and>
   remainingMs (advanceMode 1000 (constructor defaultSettings)) = 300000 \<and>
   \<not> isRunning (advanceMode 1000 (constructor defaultSettings)) \<and>
   endAt (advanceMode 1000 (constructor defaultSettings)) = None \<and>
   mode (constructor (defaultSettings\<lparr>cyclesPerRound := 1, autoStart := True\<rparr>)) = Work \<and>
   cycleInRound (constructor (defaultSettings\<lparr>cyclesPerRound := 1, autoStart := True\<rparr>)) \<ge>
     cyclesPerRound (settings (constructor (defaultSettings\<lparr>cyclesPerRound := 1, autoStart := True\<rparr>))) \<and>
   autoStart (settings (constructor (defaultSettings\<lparr>cyclesPerRound := 1, autoStart := True\<rparr>))) \<and>
   mode (advanceMode 1000 (constructor (defaultSettings\<lparr>cyclesPerRound := 1, autoStart := True\<rparr>))) = Long \<and>
   cycleInRound (advanceMode 1000 (constructor (defaultSettings\<lparr>cyclesPerRound := 1, autoStart := True\<rparr>))) = 1 \<and>
   roundN (advanceMode 1000 (constructor (defaultSettings\<lparr>cyclesPerRound := 1, autoStart := True\<rparr>))) = 2 \<and>
   remainingMs (advanceMode 1000 (constructor (defaultSettings\<lparr>cyclesPerRound := 1, autoStart := True\<rparr>))) = 900000 \<and>
   isRunning (advanceMode 1000 (constructor (defaultSettings\<lparr>cyclesPerRound := 1, autoStart := True\<rparr>))) \<and>
   endAt (advanceMode 1000 (constructor (defaultSettings\<lparr>cyclesPerRound := 1, autoStart := True\<rparr>))) = Some 901000 \<and>
   mode ((constructor defaultSettings)\<lparr>mode := Long, cycleInRound := 3, roundN := 7\<rparr>) = Long \<and>
   mode (advanceMode 1000 ((constructor defaultSettings)\<lparr>mode := Long, cycleInRound := 3, roundN := 7\<rparr>)) = Work \<and>
   cycleInRound (advanceMode 1000 ((constructor defaultSettings)\<lparr>mode := Long, cycleInRound := 3, roundN := 7\<rparr>)) = 3 \<and>
   roundN (advanceMode 1000 ((constructor defaultSettings)\<lparr>mode := Long, cycleInRound := 3, roundN := 7\<rparr>)) = 7"
proof -
  let ?a = "constructor defaultSettings"
  let ?b = "constructor (defaultSettings\<lparr>cyclesPerRound := 1, autoStart := True\<rparr>)"
  let ?c = "(constructor defaultSettings)\<lparr>mode := Long, cycleInRound := 3, roundN := 7\<rparr>"
  have a: "mode ?a = Work" "cycleInRound ?a = 1" "roundN ?a = 1"
    "cyclesPerRound (settings ?a) = 4" "\<not> autoStart (settings ?a)"
    "shortMinutes (settings ?a) = 5"
    by (simp_all add: constructor_def defaultSettings_def)
  have b: "mode ?b = Work" "cycleInRound ?b = 1" "roundN ?b = 1"
    "cyclesPerRound (settings ?b) = 1" "autoStart (settings ?b)"
    "longMinutes (settings ?b) = 15"
    by (simp_all add: constructor_def defaultSettings_def)
  have c: "mode ?c = Long" "cycleInRound ?c = 3" "roundN ?c = 7"
    by simp_all
  note A = C1_advanceMode [of ?a 1000 900]
  note B = C1_advanceMode [of ?b 1000 900]
  note C = C1_advanceMode [of ?c 1000 900]
  have pa: "mode (advanceMode 1000 ?a) = Short \<and> cycleInRound (advanceMode 1000 ?a) = 2 \<and>
      roundN (advanceMode 1000 ?a) = 1 \<and> \<not> isRunning (advanceMode 1000 ?a) \<and>
      endAt (advanceMode 1000 ?a) = None \<and> settings (advanceMode 1000 ?a) = settings ?a \<and>
      remainingMs (advanceMode 1000 ?a) = modeToMs (advanceMode 1000 ?a) Short"
    using A by (simp add: a)
  then have ra: "remainingMs (advanceMode 1000 ?a) = 300000"
    by (simp add: modeToMs_simps a)
  have pb: "mode (advanceMode 1000 ?b) = Long \<and> cycleInRound (advanceMode 1000 ?b) = 1 \<and>
      roundN (advanceMode 1000 ?b) = 2 \<and> isRunning (advanceMode 1000 ?b) \<and>
      endAt (advanceMode 1000 ?b) = Some (1000 + remainingMs (advanceMode 1000 ?b)) \<and>
      settings (advanceMode 1000 ?b) = settings ?b \<and>
      remainingMs (advanceMode 1000 ?b) = modeToMs (advanceMode 1000 ?b) Long"
    using B by (simp add: b)
  then have rb: "remainingMs (advanceMode 1000 ?b) = 900000"
    by (simp add: modeToMs_simps b)
  have pc: "mode (advanceMode 1000 ?c) = Work \<and> cycleInRound (advanceMode 1000 ?c) = 3 \<and>
      roundN (advanceMode 1000 ?c) = 7"
    using C by (simp add: c)
  show ?thesis
    using ra rb pa pb pc by (simp add: a b c)
qed

lemma ensureTicker_trace:
  "trace (ensureTicker t) =
     trace t @ (if intervalId t = None then [SetInterval (Suc (timerSeq t))] else [])"
  by (simp add: ensureTicker_def Let_def)

lemma start_running: "isRunning t \<Longrightarrow> start now t = t"
  by (simp add: start_def)

lemma start_fields:
  "settings (start now t) = settings t" "mode (start now t) = mode t"
  "cycleInRound (start now t) = cycleInRound t" "roundN (start now t) = roundN t"
  "remainingMs (start now t) = remainingMs t" "listener (start now t) = listener t"
  "isRunning (start now t)"
  by (simp_all add: start_def ensureTicker_fields)

lemma start_idle:
  "\<not> isRunning t \<Longrightarrow> endAt (start now t) = Some (now + remainingMs t)"
  "\<not> isRunning t \<Longrightarrow> startedAt (start now t) = Some now"
  "\<not> isRunning t \<Longrightarrow> lastTick (start now t) = Some now"
  "\<not> isRunning t \<Longrightarrow> intervalId (start now t) \<noteq> None"
  by (simp_all add: start_def ensureTicker_fields)

lemma start_idle_intervalId:
  "\<not> isRunning t \<Longrightarrow>
     intervalId (start now t) =
       (if intervalId t = None then Some (Suc (timerSeq t)) else intervalId t)"
  by (simp add: start_def ensureTicker_def Let_def)

lemma start_idle_trace:
  "\<not> isRunning t \<Longrightarrow>
     trace (start now t) =
       trace t @ (if intervalId t = None then [SetInterval (Suc (timerSeq t))] else [])"
  by (simp add: start_def ensureTicker_trace)

text \<open>
  C3. \<open>start\<close> changes nothing when the engine is running, so a second \<open>start\<close> right
  after a first changes nothing. When the engine is paused, \<open>start\<close> sets it running and
  sets \<open>endAt\<close> to the time read plus the remaining time, which it leaves as it is. So
  after start at \<open>t0\<close>, pause at \<open>t1\<close> and start at \<open>t2\<close> the session ends at \<open>t2\<close> plus
  what was left at \<open>t1\<close>, the remaining time at \<open>t0\<close> less the time run (not below 0).
\<close>

theorem C3_start:
  "(isRunning t \<longrightarrow> start now t = t) \<and>
   start now' (start now t) = start now t \<and>
   (\<not> isRunning t \<longrightarrow>
      isRunning (start now t) \<and>
      endAt (start now t) = Some (now + remainingMs t) \<and>
      remainingMs (start now t) = remainingMs t \<and>
      mode (start now t) = mode t \<and>
      endAt (start t2 (pause t1 (start now t))) =
        Some (t2 + max 0 (remainingMs t - (t1 - now))) \<and>
      remainingMs (start t2 (pause t1 (start now t))) = max 0 (remainingMs t - (t1 - now)))"
proof -
  have twice: "start now' (start now t) = start now t"
    by (rule start_running) (simp add: start_fields)
  have resume: "endAt (start t2 (pause t1 (start now t))) =
        Some (t2 + max 0 (remainingMs t - (t1 - now))) \<and>
      remainingMs (start t2 (pause t1 (start now t))) = max 0 (remainingMs t - (t1 - now))"
    if idle: "\<not> isRunning t"
  proof -
    have r: "isRunning (start now t)" by (simp add: start_fields)
    have "remainingMs (pause t1 (start now t)) = max 0 (now + remainingMs t - t1)"
      using idle by (simp add: pause_running [OF r] start_idle)
    moreover have "now + remainingMs t - t1 = remainingMs t - (t1 - now)" by simp
    ultimately have p: "remainingMs (pause t1 (start now t)) = max 0 (remainingMs t - (t1 - now))"
      by simp
    have "\<not> isRunning (pause t1 (start now t))" by (simp add: pause_fields)
    then show ?thesis using p by (simp add: start_idle start_fields)
  qed
  show ?thesis
    using twice resume by (simp add: start_running start_fields start_idle)
qed

theorem C3_start_witness:
  "\<not> isRunning (constructor defaultSettings) \<and>
   isRunning (start 1000 (constructor defaultSettings)) \<and>
   endAt (start 1000 (constructor defaultSettings)) = Some 1501000 \<and>
   start 2000 (start 1000 (constructor defaultSettings)) = start 1000 (constructor defaultSettings) \<and>
   endAt (start 9000 (pause 4000 (start 1000 (constructor defaultSettings)))) = Some 1506000 \<and>
   remainingMs (start 9000 (pause 4000 (start 1000 (constructor defaultSettings)))) = 1497000"
proof -
  have a: "\<not> isRunning (constructor defaultSettings)"
    "remainingMs (constructor defaultSettings) = 1500000"
    by (simp_all add: constructor_def defaultSettings_def modeToMs_def)
  show ?thesis
    using C3_start [of "constructor defaultSettings" 1000 2000 9000 4000] a by simp
qed

text \<open>
  C4. \<open>pause\<close> changes nothing when the engine is not running, so a second \<open>pause\<close>
  right after a first changes nothing. When the engine is running, \<open>pause\<close> clears
  \<open>endAt\<close>, sets \<open>isRunning\<close> to false and gives up the interval timer, clearing the one
  it held; and when \<open>endAt\<close> was set to \<open>e\<close> it sets the remaining time to
  \<open>max 0 (e - now)\<close>, whatever the remaining time was before.
\<close>

theorem C4_pause:
  "(\<not> isRunning t \<longrightarrow> pause now t = t) \<and>
   pause now' (pause now t) = pause now t \<and>
   (isRunning t \<longrightarrow>
      \<not> isRunning (pause now t) \<and> endAt (pause now t) = None \<and>
      intervalId (pause now t) = None \<and>
      (\<forall>h. intervalId t = Some h \<longrightarrow> trace (pause now t) = trace t @ [ClearInterval h]) \<and>
      (\<forall>e. endAt t = Some e \<longrightarrow> remainingMs (pause now t) = max 0 (e - now)))"
proof -
  have twice: "pause now' (pause now t) = pause now t"
    by (rule pause_idle) (simp add: pause_fields)
  show ?thesis
    using twice by (simp add: pause_idle pause_fields pause_running)
qed

theorem C4_pause_witness:
  "isRunning (start 1000 (constructor defaultSettings)) \<and>
   \<not> isRunning (pause 4000 (start 1000 (constructor defaultSettings))) \<and>
   endAt (pause 4000 (start 1000 (constructor defaultSettings))) = None \<and>
   intervalId (pause 4000 (start 1000 (constructor defaultSettings))) = None \<and>
   intervalId (start 1000 (constructor defaultSettings)) = Some 1 \<and>
   trace (pause 4000 (start 1000 (constructor defaultSettings))) = [SetInterval 1, ClearInterval 1] \<and>
   endAt (start 1000 (constructor defaultSettings)) = Some 1501000 \<and>
   remainingMs (pause 4000 (start 1000 (constructor defaultSettings))) = 1497000 \<and>
   pause 5000 (pause 4000 (start 1000 (constructor defaultSettings))) =
     pause 4000 (start 1000 (constructor defaultSettings)) \<and>
   \<not> isRunning (constructor defaultSettings) \<and>
   pause 4000 (constructor defaultSettings) = constructor defaultSettings"
proof -
  let ?s = "start 1000 (constructor defaultSettings)"
  have a: "\<not> isRunning (constructor defaultSettings)"
    "remainingMs (constructor defaultSettings) = 1500000"
    "intervalId (constructor defaultSettings) = None"
    "timerSeq (constructor defaultSettings) = 0"
    "trace (constructor defaultSettings) = []"
    by (simp_all add: constructor_def defaultSettings_def modeToMs_def)
  have s: "isRunning ?s" "endAt ?s = Some 1501000" "intervalId ?s = Some 1"
    "trace ?s = [SetInterval 1]"
    using a by (simp_all add: start_fields start_idle start_idle_intervalId start_idle_trace)
  show ?thesis
    using C4_pause [of ?s 4000 5000] C4_pause [of "constructor defaultSettings" 4000 5000] a s
    by simp
qed

section \<open>Invariants of the engine\<close>

lemma modeToMs_pos: "validSettings (settings t) \<Longrightarrow> 0 < modeToMs t m"
  by (cases m) (simp_all add: modeToMs_simps validSettings_def)

lemma modeToMs_ops:
  "modeToMs (emit mc t) m = modeToMs t m"
  "modeToMs (ensureTicker t) m = modeToMs t m"
  "modeToMs (start now t) m = modeToMs t m"
  "modeToMs (pause now t) m = modeToMs t m"
  "modeToMs (advanceMode now t) m = modeToMs t m"
  "modeToMs (beep t) m = modeToMs t m"
  "modeToMs (notify a b t) m = modeToMs t m"
  by (simp_all add: modeToMs_def emit_fields ensureTicker_fields start_fields pause_fields
      advanceMode_settings beep_def notify_def)

lemma paired_emit: "paired (emit mc t) = paired t"
  by (simp add: paired_def emit_fields)

lemma bounded_emit: "bounded T (emit mc t) = bounded T t"
  by (simp add: bounded_def paired_emit emit_fields modeToMs_ops)

lemma bounded_valid: "bounded T t \<Longrightarrow> validSettings (settings t)"
  by (simp add: bounded_def)

lemma bounded_paired: "bounded T t \<Longrightarrow> paired t"
  by (simp add: bounded_def)

lemma bounded_mono: "bounded T t \<Longrightarrow> T \<le> T' \<Longrightarrow> bounded T' t"
  by (fastforce simp: bounded_def)

lemma paired_start: "paired t \<Longrightarrow> paired (start now t)"
  by (cases "isRunning t") (simp_all add: paired_def start_running start_fields start_idle)

lemma bounded_start: "bounded T t \<Longrightarrow> T \<le> now \<Longrightarrow> bounded now (start now t)"
proof (cases "isRunning t")
  case True
  assume "bounded T t" "T \<le> now"
  then show ?thesis using True by (simp add: start_running bounded_mono)
next
  case False
  assume "bounded T t" "T \<le> now"
  then show ?thesis using False
    by (simp add: bounded_def paired_def start_fields start_idle modeToMs_ops)
qed

lemma paired_pause: "paired t \<Longrightarrow> paired (pause now t)"
  by (cases "isRunning t") (simp_all add: paired_def pause_idle pause_fields pause_running)

lemma endAt_pause: "paired t \<Longrightarrow> endAt (pause now t) = None"
  by (cases "isRunning t") (simp_all add: paired_def pause_idle pause_running)

lemma bounded_pause: "bounded T t \<Longrightarrow> T \<le> now \<Longrightarrow> bounded now (pause now t)"
proof (cases "isRunning t")
  case False
  assume "bounded T t" "T \<le> now"
  then show ?thesis using False by (simp add: pause_idle bounded_mono)
next
  case True
  assume "bounded T t" "T \<le> now"
  then show ?thesis using True
    by (auto simp: bounded_def paired_def pause_fields pause_running modeToMs_ops)
qed

lemma reset_fields:
  "settings (reset now t) = settings t" "mode (reset now t) = mode t"
  "cycleInRound (reset now t) = cycleInRound t" "roundN (reset now t) = roundN t"
  "listener (reset now t) = listener t" "\<not> isRunning (reset now t)"
  "endAt (reset now t) = None" "remainingMs (reset now t) = modeToMs t (mode t)"
  "modeToMs (reset now t) m = modeToMs t m"
  by (simp_all add: reset_def Let_def pause_fields modeToMs_ops modeToMs_def)

lemma paired_reset: "paired (reset now t)"
  by (simp add: paired_def reset_fields)

lemma bounded_reset: "validSettings (settings t) \<Longrightarrow> bounded T' (reset now t)"
  using modeToMs_pos [of t "mode t"]
  by (simp add: bounded_def paired_reset reset_fields)

lemma paired_advanceMode: "paired (advanceMode now t)"
  by (simp add: paired_def advanceMode_isRunning advanceMode_endAt)

lemma bounded_advanceMode: "validSettings (settings t) \<Longrightarrow> bounded now (advanceMode now t)"
  using modeToMs_pos [of t "mode (advanceMode now t)"]
  by (simp add: bounded_def paired_advanceMode advanceMode_settings advanceMode_remainingMs
      advanceMode_endAt modeToMs_ops)

lemma onComplete_fields:
  "settings (onComplete nowP nowA t) = settings t"
  "mode (onComplete nowP nowA t) = mode (advanceMode nowA t)"
  "cycleInRound (onComplete nowP nowA t) = cycleInRound (advanceMode nowA t)"
  "roundN (onComplete nowP nowA t) = roundN (advanceMode nowA t)"
  "listener (onComplete nowP nowA t) = listener t"
  "isRunning (onComplete nowP nowA t) = autoStart (settings t)"
  by (simp_all add: onComplete_unfold advanceMode_settings advanceMode_mode
      advanceMode_cycleInRound advanceMode_roundN advanceMode_listener advanceMode_isRunning
      notify_def beep_def pause_fields)

lemma paired_onComplete: "paired (onComplete nowP nowA t)"
  by (simp add: onComplete_unfold paired_advanceMode)

lemma bounded_onComplete:
  "validSettings (settings t) \<Longrightarrow> bounded nowA (onComplete nowP nowA t)"
  by (simp add: onComplete_unfold bounded_advanceMode notify_def beep_def pause_fields)

lemma tick_idle: "\<not> isRunning t \<Longrightarrow> tick now nowP nowA t = t"
  by (simp add: tick_def)

lemma tick_running:
  "isRunning t \<Longrightarrow> endAt t = Some e \<Longrightarrow>
     tick now nowP nowA t =
       (if e \<le> now
        then onComplete nowP nowA (t\<lparr>lastTick := Some now, remainingMs := 0\<rparr>)
        else emit False (t\<lparr>lastTick := Some now, remainingMs := e - now\<rparr>))"
  by (simp add: tick_def Let_def max_def)

lemma paired_tick: "paired t \<Longrightarrow> paired (tick now nowP nowA t)"
proof (cases "isRunning t")
  case False
  assume "paired t"
  then show ?thesis using False by (simp add: tick_idle)
next
  case True
  assume p: "paired t"
  then obtain e where e: "endAt t = Some e" using True by (auto simp: paired_def)
  show ?thesis using p
    by (simp add: tick_running [OF True e] paired_onComplete paired_emit) (simp add: paired_def)
qed

lemma bounded_tick:
  assumes "bounded T t" "T \<le> now" "now \<le> nowP" "nowP \<le> nowA"
  shows "bounded nowA (tick now nowP nowA t)"
proof (cases "isRunning t")
  case False
  then show ?thesis using assms by (simp add: tick_idle bounded_mono)
next
  case True
  then obtain e where e: "endAt t = Some e" using assms(1) by (auto simp: bounded_def paired_def)
  show ?thesis
  proof (cases "e \<le> now")
    case True
    have "validSettings (settings (t\<lparr>lastTick := Some now, remainingMs := 0\<rparr>))"
      using assms(1) by (simp add: bounded_def)
    then show ?thesis
      using True by (simp add: tick_running [OF \<open>isRunning t\<close> e] bounded_onComplete)
  next
    case False
    have "bounded nowA (t\<lparr>lastTick := Some now, remainingMs := e - now\<rparr>)"
      using assms e False
      by (simp add: bounded_def paired_def
          modeToMs_cong [of "t\<lparr>lastTick := Some now, remainingMs := e - now\<rparr>" t])
    then show ?thesis
      using False by (simp add: tick_running [OF \<open>isRunning t\<close> e] bounded_emit)
  qed
qed


lemma setSettings_fields:
  "settings (setSettings cfg nowP nowS t) = cfg"
  "mode (setSettings cfg nowP nowS t) = mode t"
  "cycleInRound (setSettings cfg nowP nowS t) = cycleInRound t"
  "roundN (setSettings cfg nowP nowS t) = roundN t"
  "listener (setSettings cfg nowP nowS t) = listener t"
  "isRunning (setSettings cfg nowP nowS t) = isRunning t"
  "remainingMs (setSettings cfg nowP nowS t) = modeToMs (t\<lparr>settings := cfg\<rparr>) (mode t)"
  by (simp_all add: setSettings_def Let_def emit_fields start_fields pause_fields modeToMs_def)

lemma modeToMs_setSettings:
  "modeToMs (setSettings cfg nowP nowS t) m = modeToMs (t\<lparr>settings := cfg\<rparr>) m"
  by (simp add: modeToMs_def setSettings_fields)

lemma setSettings_endAt:
  "endAt (setSettings cfg nowP nowS t) =
     (if isRunning t then Some (nowS + remainingMs (setSettings cfg nowP nowS t)) else endAt t)"
  by (simp add: setSettings_def Let_def emit_fields start_fields start_idle pause_fields
      pause_idle modeToMs_def)

lemma paired_setSettings: "paired t \<Longrightarrow> paired (setSettings cfg nowP nowS t)"
  by (simp add: paired_def setSettings_fields setSettings_endAt)

lemma bounded_setSettings:
  assumes "paired t" "validSettings cfg"
  shows "bounded nowS (setSettings cfg nowP nowS t)"
proof -
  have idle: "\<not> isRunning t \<Longrightarrow> endAt t = None"
    using assms(1) by (simp add: paired_def)
  show ?thesis
    using assms idle modeToMs_pos [of "t\<lparr>settings := cfg\<rparr>" "mode t"]
    by (simp add: bounded_def paired_setSettings setSettings_fields modeToMs_setSettings
        setSettings_endAt)
qed

lemma setMode_fields:
  "settings (setMode m now t) = settings t"
  "mode (setMode m now t) = m"
  "cycleInRound (setMode m now t) = cycleInRound t"
  "roundN (setMode m now t) = roundN t"
  "listener (setMode m now t) = listener t"
  "\<not> isRunning (setMode m now t)"
  "endAt (setMode m now t) = None"
  "remainingMs (setMode m now t) = modeToMs t m"
  "modeToMs (setMode m now t) m' = modeToMs t m'"
  by (simp_all add: setMode_def Let_def emit_fields pause_fields modeToMs_def)

lemma paired_setMode: "paired (setMode m now t)"
  by (simp add: paired_def setMode_fields)

lemma bounded_setMode: "validSettings (settings t) \<Longrightarrow> bounded T' (setMode m now t)"
  using modeToMs_pos [of t m]
  by (simp add: bounded_def paired_setMode setMode_fields)

lemma paired_onChange: "paired (onChange t) = paired t"
  by (simp add: paired_def onChange_def)

lemma bounded_onChange: "bounded T (onChange t) = bounded T t"
proof -
  have "modeToMs (onChange t) (mode t) = modeToMs t (mode t)"
    by (rule modeToMs_cong) (simp add: onChange_def)
  then show ?thesis
    by (simp add: bounded_def paired_onChange) (simp add: onChange_def)
qed

lemma paired_step: "paired t \<Longrightarrow> paired (step x t)"
  by (cases x)
    (simp_all add: paired_start paired_pause paired_reset skip_def paired_advanceMode
      paired_tick paired_setSettings paired_setMode paired_emit paired_onChange)

lemma paired_run: "paired t \<Longrightarrow> paired (run ops t)"
  by (induction ops arbitrary: t) (simp_all add: paired_step)

lemma paired_constructor: "paired (constructor cfg)"
  by (simp add: paired_def constructor_def)

lemma bounded_constructor: "validSettings cfg \<Longrightarrow> bounded T (constructor cfg)"
proof -
  assume v: "validSettings cfg"
  have s: "settings (constructor cfg) = cfg" "mode (constructor cfg) = Work"
    "remainingMs (constructor cfg) = workMinutes cfg * 60000" "endAt (constructor cfg) = None"
    by (simp_all add: constructor_def modeToMs_def)
  show ?thesis
    using v by (simp add: bounded_def paired_constructor s modeToMs_simps validSettings_def)
qed

lemma bounded_step:
  assumes "bounded T t" "validOp x" "sorted (T # readings x)"
  shows "bounded (last (T # readings x)) (step x t)"
proof (cases x)
  case (Start now)
  then show ?thesis using assms by (simp add: bounded_start)
next
  case (Pause now)
  then show ?thesis using assms by (simp add: bounded_pause)
next
  case (Reset now)
  then show ?thesis using bounded_valid [OF assms(1)] by (simp add: bounded_reset)
next
  case (Skip now)
  then show ?thesis using bounded_valid [OF assms(1)] by (simp add: skip_def bounded_advanceMode)
next
  case (Tick now nowP nowA)
  have "bounded nowA t" if "T \<le> nowA"
    using assms(1) that by (rule bounded_mono)
  then show ?thesis using assms Tick by (simp add: bounded_tick)
next
  case (SetSettings cfg nowP nowS)
  then show ?thesis using bounded_paired [OF assms(1)] assms(2) by (simp add: bounded_setSettings)
next
  case (SetMode m now)
  then show ?thesis using bounded_valid [OF assms(1)] by (simp add: bounded_setMode)
next
  case (EmitOp mc)
  then show ?thesis using assms by (simp add: bounded_emit)
next
  case OnChange
  then show ?thesis using assms by (simp add: bounded_onChange)
qed

lemma bounded_run:
  "bounded T t \<Longrightarrow> list_all validOp ops \<Longrightarrow> sorted (T # concat (map readings ops)) \<Longrightarrow>
     \<exists>T'. bounded T' (run ops t)"
proof (induction ops arbitrary: T t)
  case Nil
  then show ?case by auto
next
  case (Cons x xs)
  let ?T = "last (T # readings x)"
  have s: "sorted ((T # readings x) @ concat (map readings xs))"
    using Cons.prems(3) by simp
  have s1: "sorted (T # readings x)"
    using s unfolding sorted_append by blast
  have "?T \<in> set (T # readings x)"
    by (rule last_in_set) simp
  then have s2: "sorted (?T # concat (map readings xs))"
    using s unfolding sorted_append by auto
  have v: "validOp x" using Cons.prems(2) by simp
  have "bounded ?T (step x t)"
    using Cons.prems(1) v s1 by (rule bounded_step)
  then show ?case
    using Cons.IH [of ?T "step x t"] Cons.prems(2) s2 by simp
qed

lemma bounded_reach:
  assumes "validSettings cfg" "list_all validOp ops" "clockOk ops"
  shows "\<exists>T. bounded T (run ops (constructor cfg))"
proof (cases "concat (map readings ops)")
  case Nil
  have "sorted [0::int]" by simp
  then have "sorted (0 # concat (map readings ops))" unfolding Nil .
  then show ?thesis
    by (rule bounded_run [OF bounded_constructor [OF assms(1)] assms(2)])
next
  case (Cons a as)
  then have "sorted (a # concat (map readings ops))"
    using assms(3) by (simp add: clockOk_def)
  then show ?thesis
    by (rule bounded_run [OF bounded_constructor [OF assms(1)] assms(2)])
qed



lemma tick_unfold:
  "isRunning t \<Longrightarrow>
     tick now nowP nowA t =
       (if recomputed now t = 0
        then onComplete nowP nowA (t\<lparr>lastTick := Some now, remainingMs := recomputed now t\<rparr>)
        else emit False (t\<lparr>lastTick := Some now, remainingMs := recomputed now t\<rparr>))"
proof (cases "endAt t")
  case None
  assume r: "isRunning t"
  have eq: "t\<lparr>lastTick := Some now, remainingMs := recomputed now t\<rparr> = t\<lparr>lastTick := Some now\<rparr>"
    using None by (simp add: recomputed_def)
  show ?thesis
    unfolding eq using r None by (simp add: tick_def recomputed_def Let_def)
next
  case (Some e)
  assume "isRunning t"
  then show ?thesis using Some by (simp add: tick_def recomputed_def Let_def)
qed

lemma tick_fields:
  "settings (tick now nowP nowA t) = settings t"
  "listener (tick now nowP nowA t) = listener t"
proof -
  have "settings (tick now nowP nowA t) = settings t \<and>
      listener (tick now nowP nowA t) = listener t"
  proof (cases "isRunning t")
    case True
    then show ?thesis by (simp add: tick_unfold onComplete_fields emit_fields)
  next
    case False
    then show ?thesis by (simp add: tick_idle)
  qed
  then show "settings (tick now nowP nowA t) = settings t"
    and "listener (tick now nowP nowA t) = listener t"
    by simp_all
qed

lemma advances_simps:
  "advances (Skip now) t"
  "advances (Tick now nowP nowA) t =
     (intervalId t \<noteq> None \<and> isRunning t \<and> recomputed now t = 0)"
  "\<not> advances (Start now) t" "\<not> advances (Pause now) t" "\<not> advances (Reset now) t"
  "\<not> advances (SetSettings cfg nowP nowS) t" "\<not> advances (SetMode m now) t"
  "\<not> advances (EmitOp mc) t" "\<not> advances OnChange t"
  by (simp_all add: advances_def)

lemma step_advances:
  assumes "advances x t"
  shows "mode (step x t) = mode (advanceMode 0 t)"
    and "cycleInRound (step x t) = cycleInRound (advanceMode 0 t)"
    and "roundN (step x t) = roundN (advanceMode 0 t)"
proof -
  have "mode (step x t) = mode (advanceMode 0 t) \<and>
      cycleInRound (step x t) = cycleInRound (advanceMode 0 t) \<and>
      roundN (step x t) = roundN (advanceMode 0 t)"
  proof (cases x)
    case (Skip now)
    then show ?thesis
      by (simp add: skip_def advanceMode_mode advanceMode_cycleInRound advanceMode_roundN)
  next
    case (Tick now nowP nowA)
    then have r: "isRunning t" "intervalId t \<noteq> None" "recomputed now t = 0"
      using assms by (simp_all add: advances_simps)
    have "step x t =
        onComplete nowP nowA (t\<lparr>lastTick := Some now, remainingMs := recomputed now t\<rparr>)"
      using Tick r by (auto simp: tick_unfold)
    then show ?thesis
      by (simp add: onComplete_fields advanceMode_mode advanceMode_cycleInRound
          advanceMode_roundN)
  qed (use assms in \<open>simp_all add: advances_simps\<close>)
  then show "mode (step x t) = mode (advanceMode 0 t)"
    and "cycleInRound (step x t) = cycleInRound (advanceMode 0 t)"
    and "roundN (step x t) = roundN (advanceMode 0 t)"
    by simp_all
qed

lemma step_stays:
  assumes "\<not> advances x t"
  shows "cycleInRound (step x t) = cycleInRound t"
    and "roundN (step x t) = roundN t"
    and "\<not> isSetMode x \<Longrightarrow> mode (step x t) = mode t"
proof -
  have "cycleInRound (step x t) = cycleInRound t \<and> roundN (step x t) = roundN t \<and>
      (\<not> isSetMode x \<longrightarrow> mode (step x t) = mode t)"
  proof (cases x)
    case (Tick now nowP nowA)
    show ?thesis
    proof (cases "intervalId t \<noteq> None \<and> isRunning t")
      case False
      then show ?thesis using Tick by (auto simp: tick_idle)
    next
      case True
      then have "recomputed now t \<noteq> 0"
        using assms Tick by (simp add: advances_simps)
      then have "step x t =
          emit False (t\<lparr>lastTick := Some now, remainingMs := recomputed now t\<rparr>)"
        using Tick True by (auto simp: tick_unfold)
      then show ?thesis by (simp add: emit_fields)
    qed
  next
    case (Skip now)
    then show ?thesis using assms by (simp add: advances_simps)
  qed (simp_all add: start_fields pause_fields reset_fields setSettings_fields setMode_fields
        emit_fields onChange_def)
  then show "cycleInRound (step x t) = cycleInRound t"
    and "roundN (step x t) = roundN t"
    and "\<not> isSetMode x \<Longrightarrow> mode (step x t) = mode t"
    by simp_all
qed

lemma advances_not_setMode: "advances x t \<Longrightarrow> \<not> isSetMode x"
  by (cases x) (simp_all add: advances_simps)

lemma roundN_step:
  "roundN (step x t) =
     (if \<not> isSetMode x \<and> mode t \<noteq> Long \<and> mode (step x t) = Long
      then roundN t + 1 else roundN t)"
proof (cases "advances x t")
  case True
  have m: "mode (step x t) = mode (advanceMode 0 t)"
    and r: "roundN (step x t) = roundN (advanceMode 0 t)"
    using step_advances [OF True] by simp_all
  show ?thesis
    unfolding m r using advances_not_setMode [OF True]
    by (simp add: advanceMode_mode advanceMode_roundN)
next
  case False
  have r: "roundN (step x t) = roundN t" using step_stays [OF False] by simp
  show ?thesis
  proof (cases "isSetMode x")
    case True
    then show ?thesis unfolding r by simp
  next
    case False
    then have "mode (step x t) = mode t" using step_stays [OF \<open>\<not> advances x t\<close>] by simp
    then show ?thesis unfolding r by simp
  qed
qed

lemma roundN_run: "1 \<le> roundN t \<Longrightarrow> 1 \<le> roundN (run ops t)"
proof (induction ops arbitrary: t)
  case Nil
  then show ?case by simp
next
  case (Cons x xs)
  have "roundN t \<le> roundN (step x t)" by (subst roundN_step) simp
  then show ?case using Cons by simp
qed

lemma cycleInRound_step: "1 \<le> cycleInRound t \<Longrightarrow> 1 \<le> cycleInRound (step x t)"
proof (cases "advances x t")
  case True
  assume "1 \<le> cycleInRound t"
  then show ?thesis
    unfolding step_advances(2) [OF True] by (simp add: advanceMode_cycleInRound)
next
  case False
  assume "1 \<le> cycleInRound t"
  then show ?thesis unfolding step_stays(1) [OF False] .
qed

lemma cycleInRound_run: "1 \<le> cycleInRound t \<Longrightarrow> 1 \<le> cycleInRound (run ops t)"
proof (induction ops arbitrary: t)
  case Nil
  then show ?case by simp
next
  case (Cons x xs)
  then show ?case using cycleInRound_step [of t x] by simp
qed

lemma settings_step:
  "settings (step x t) = (case x of SetSettings cfg nowP nowS \<Rightarrow> cfg | _ \<Rightarrow> settings t)"
  by (cases x)
    (simp_all add: start_fields pause_fields reset_fields skip_def advanceMode_settings
      tick_fields setSettings_fields setMode_fields emit_fields onChange_def)

lemma fits_settings:
  "fitsOp x t \<Longrightarrow> cycleInRound t \<le> cyclesPerRound (settings t) \<Longrightarrow>
     cycleInRound t \<le> cyclesPerRound (settings (step x t))"
  unfolding settings_step by (cases x) simp_all

lemma settings_advances: "advances x t \<Longrightarrow> settings (step x t) = settings t"
  unfolding settings_step by (cases x) (simp_all add: advances_simps)

lemma inRound_step:
  assumes "inRound t" "fitsOp x t"
  shows "inRound (step x t)"
proof (cases "advances x t")
  case True
  have c: "cycleInRound (step x t) = cycleInRound (advanceMode 0 t)"
    using step_advances [OF True] by simp
  show ?thesis
    unfolding inRound_def c settings_advances [OF True]
    using assms(1) by (simp add: inRound_def advanceMode_cycleInRound)
next
  case False
  have c: "cycleInRound (step x t) = cycleInRound t"
    using step_stays [OF False] by simp
  show ?thesis
    unfolding inRound_def c
    using assms fits_settings [of x t] by (simp add: inRound_def)
qed

lemma inRound_run: "inRound t \<Longrightarrow> cyclesFit ops t \<Longrightarrow> inRound (run ops t)"
proof (induction ops arbitrary: t)
  case Nil
  then show ?case by simp
next
  case (Cons x xs)
  then show ?case using inRound_step [of t x] by simp
qed

lemma recomputed_nonneg: "0 \<le> remainingMs t \<Longrightarrow> 0 \<le> recomputed now t"
  by (simp add: recomputed_def split: option.splits)

lemma remainingMs_onComplete:
  "remainingMs (onComplete nowP nowA t) = modeToMs t (mode (onComplete nowP nowA t))"
  unfolding onComplete_unfold by (simp add: advanceMode_remainingMs modeToMs_ops)

lemma remainingMs_pause_nonneg: "0 \<le> remainingMs t \<Longrightarrow> 0 \<le> remainingMs (pause now t)"
  by (cases "isRunning t") (simp_all add: pause_idle pause_running split: option.splits)

lemma remainingMs_tick_nonneg:
  assumes "validSettings (settings t)" "0 \<le> remainingMs t"
  shows "0 \<le> remainingMs (tick now nowP nowA t)"
proof (cases "isRunning t")
  case False
  then show ?thesis using assms(2) by (simp add: tick_idle)
next
  case True
  have "0 < remainingMs (onComplete nowP nowA (t\<lparr>lastTick := Some now, remainingMs := r\<rparr>))"
    for r
    unfolding remainingMs_onComplete by (rule modeToMs_pos) (simp add: assms(1))
  then have c: "0 \<le> remainingMs (onComplete nowP nowA (t\<lparr>lastTick := Some now, remainingMs := r\<rparr>))"
    for r
    by (simp add: less_imp_le)
  show ?thesis
    using recomputed_nonneg [OF assms(2), of now] c
    by (simp add: tick_unfold [OF True] emit_fields)
qed

lemma nonneg_step:
  assumes "validSettings (settings t)" "validOp x" "0 \<le> remainingMs t"
  shows "validSettings (settings (step x t)) \<and> 0 \<le> remainingMs (step x t)"
proof -
  have s: "validSettings (settings (step x t))"
    unfolding settings_step using assms(1,2) by (cases x) simp_all
  have pos: "0 \<le> modeToMs t m" for m
    using modeToMs_pos [OF assms(1), of m] by simp
  have r: "0 \<le> remainingMs (step x t)"
  proof (cases x)
    case (Start now)
    then show ?thesis using assms(3) by (simp add: start_fields)
  next
    case (Pause now)
    then show ?thesis using assms(3) by (simp add: remainingMs_pause_nonneg)
  next
    case (Reset now)
    then show ?thesis using pos by (simp add: reset_fields)
  next
    case (Skip now)
    then show ?thesis using pos by (simp add: skip_def advanceMode_remainingMs)
  next
    case (Tick now nowP nowA)
    then show ?thesis using assms(1,3) by (simp add: remainingMs_tick_nonneg)
  next
    case (SetSettings cfg nowP nowS)
    then have "validSettings (settings (t\<lparr>settings := cfg\<rparr>))" using assms(2) by simp
    then have "0 < modeToMs (t\<lparr>settings := cfg\<rparr>) (mode t)" by (rule modeToMs_pos)
    then show ?thesis using SetSettings by (simp add: setSettings_fields)
  next
    case (SetMode m now)
    then show ?thesis using pos by (simp add: setMode_fields)
  next
    case (EmitOp mc)
    then show ?thesis using assms(3) by (simp add: emit_fields)
  next
    case OnChange
    then show ?thesis using assms(3) by (simp add: onChange_def)
  qed
  show ?thesis using s r by simp
qed

lemma nonneg_run:
  "validSettings (settings t) \<Longrightarrow> list_all validOp ops \<Longrightarrow> 0 \<le> remainingMs t \<Longrightarrow>
     0 \<le> remainingMs (run ops t)"
proof (induction ops arbitrary: t)
  case Nil
  then show ?case by simp
next
  case (Cons x xs)
  have "validOp x" using Cons.prems(2) by simp
  then have "validSettings (settings (step x t)) \<and> 0 \<le> remainingMs (step x t)"
    using Cons.prems(1,3) by (simp add: nonneg_step)
  then show ?case using Cons.IH [of "step x t"] Cons.prems(2) by simp
qed

text \<open>
  C7, as amended. The initial state is Work, round 1, cycle 1, paused, with the full
  work duration remaining. After any sequence of operations from it, \<open>endAt\<close> is set
  exactly when the engine is running. When the settings the engine is given are valid
  (durations and cycles at least 1, the invariant of a configuration) the remaining time
  is at least 0; and when moreover the readings of the clock do not decrease, the
  remaining time is at most the full duration of the current mode under the current
  settings.
\<close>

theorem C7_invariant:
  "mode (constructor cfg) = Work \<and> roundN (constructor cfg) = 1 \<and>
   cycleInRound (constructor cfg) = 1 \<and> \<not> isRunning (constructor cfg) \<and>
   remainingMs (constructor cfg) = modeToMs (constructor cfg) Work \<and>
   (isRunning (run ops (constructor cfg)) \<longleftrightarrow> endAt (run ops (constructor cfg)) \<noteq> None) \<and>
   (validSettings cfg \<and> list_all validOp ops \<longrightarrow>
      0 \<le> remainingMs (run ops (constructor cfg))) \<and>
   (validSettings cfg \<and> list_all validOp ops \<and> clockOk ops \<longrightarrow>
      remainingMs (run ops (constructor cfg)) \<le>
        modeToMs (run ops (constructor cfg)) (mode (run ops (constructor cfg))))"
proof -
  have init: "mode (constructor cfg) = Work \<and> roundN (constructor cfg) = 1 \<and>
      cycleInRound (constructor cfg) = 1 \<and> \<not> isRunning (constructor cfg) \<and>
      remainingMs (constructor cfg) = modeToMs (constructor cfg) Work"
    by (simp add: constructor_def modeToMs_def)
  have p: "isRunning (run ops (constructor cfg)) \<longleftrightarrow> endAt (run ops (constructor cfg)) \<noteq> None"
    using paired_run [OF paired_constructor, of ops cfg] by (simp add: paired_def)
  have l: "0 \<le> remainingMs (run ops (constructor cfg))"
    if v: "validSettings cfg" "list_all validOp ops"
  proof -
    have "0 \<le> remainingMs (constructor cfg)"
      using bounded_constructor [OF v(1), of 0] by (simp add: bounded_def)
    moreover have "validSettings (settings (constructor cfg))"
      using v(1) by (simp add: constructor_def)
    ultimately show ?thesis using v(2) by (simp add: nonneg_run)
  qed
  have b: "remainingMs (run ops (constructor cfg)) \<le>
        modeToMs (run ops (constructor cfg)) (mode (run ops (constructor cfg)))"
    if v: "validSettings cfg" "list_all validOp ops" "clockOk ops"
  proof -
    obtain T where "bounded T (run ops (constructor cfg))"
      using bounded_reach [OF v] ..
    then show ?thesis by (simp add: bounded_def)
  qed
  show ?thesis using init p l b by blast
qed

theorem C7_invariant_witness:
  "validSettings defaultSettings \<and>
   list_all validOp [OnChange, Start 1000, Tick 1250 1250 1250, Pause 2000, Start 3000,
     Tick 3250 3250 3250] \<and>
   clockOk [OnChange, Start 1000, Tick 1250 1250 1250, Pause 2000, Start 3000,
     Tick 3250 3250 3250] \<and>
   isRunning (run [OnChange, Start 1000, Tick 1250 1250 1250, Pause 2000, Start 3000,
     Tick 3250 3250 3250] (constructor defaultSettings)) \<and>
   endAt (run [OnChange, Start 1000, Tick 1250 1250 1250, Pause 2000, Start 3000,
     Tick 3250 3250 3250] (constructor defaultSettings)) = Some 1502000 \<and>
   remainingMs (run [OnChange, Start 1000, Tick 1250 1250 1250, Pause 2000, Start 3000,
     Tick 3250 3250 3250] (constructor defaultSettings)) = 1498750 \<and>
   0 \<le> remainingMs (run [OnChange, Start 1000, Tick 1250 1250 1250, Pause 2000, Start 3000,
     Tick 3250 3250 3250] (constructor defaultSettings)) \<and>
   remainingMs (run [OnChange, Start 1000, Tick 1250 1250 1250, Pause 2000, Start 3000,
     Tick 3250 3250 3250] (constructor defaultSettings)) \<le>
   modeToMs (run [OnChange, Start 1000, Tick 1250 1250 1250, Pause 2000, Start 3000,
     Tick 3250 3250 3250] (constructor defaultSettings))
     (mode (run [OnChange, Start 1000, Tick 1250 1250 1250, Pause 2000, Start 3000,
     Tick 3250 3250 3250] (constructor defaultSettings)))"
proof -
  let ?ops = "[OnChange, Start 1000, Tick 1250 1250 1250, Pause 2000, Start 3000,
     Tick 3250 3250 3250]"
  have h: "validSettings defaultSettings" "list_all validOp ?ops" "clockOk ?ops"
    by (simp_all add: validSettings_def defaultSettings_def clockOk_def)
  have e: "run ?ops (constructor defaultSettings) =
      \<lparr>settings = defaultSettings, mode = Work, cycleInRound = 1, roundN = 1,
       isRunning = True, startedAt = Some 3000, endAt = Some 1502000,
       remainingMs = 1498750, intervalId = Some 2, lastTick = Some 3250, listener = True,
       timerSeq = 2,
       trace = [SetInterval 1, Emit (Snapshot Work 1499750 1 1 1500000 True False),
         ClearInterval 1, SetInterval 2,
         Emit (Snapshot Work 1498750 1 1 1500000 True False)]\<rparr>"
    by (simp add: constructor_def defaultSettings_def modeToMs_def onChange_def start_def
        ensureTicker_def tick_def pause_def emit_def Let_def)
  have c: "0 \<le> remainingMs (run ?ops (constructor defaultSettings)) \<and>
      remainingMs (run ?ops (constructor defaultSettings)) \<le>
        modeToMs (run ?ops (constructor defaultSettings))
          (mode (run ?ops (constructor defaultSettings)))"
    using C7_invariant [of defaultSettings ?ops] h by blast
  have v: "isRunning (run ?ops (constructor defaultSettings))"
    "endAt (run ?ops (constructor defaultSettings)) = Some 1502000"
    "remainingMs (run ?ops (constructor defaultSettings)) = 1498750"
    unfolding e by simp_all
  show ?thesis using h c v by blast
qed

text \<open>
  Without the condition on the clock the upper bound fails. The engine takes every
  reading of \<open>Date.now()\<close> as it comes and bounds the remaining time from below only: a
  pause, or a firing of the interval timer, that reads a time before the time of the
  start leaves more than the full duration, and after the pause the engine keeps it.
\<close>

theorem C7_counterexample:
  "validSettings defaultSettings \<and> list_all validOp [Start 1000, Pause 0] \<and>
   \<not> isRunning (run [Start 1000, Pause 0] (constructor defaultSettings)) \<and>
   remainingMs (run [Start 1000, Pause 0] (constructor defaultSettings)) = 1501000 \<and>
   modeToMs (run [Start 1000, Pause 0] (constructor defaultSettings))
     (mode (run [Start 1000, Pause 0] (constructor defaultSettings))) = 1500000 \<and>
   \<not> remainingMs (run [Start 1000, Pause 0] (constructor defaultSettings)) \<le>
     modeToMs (run [Start 1000, Pause 0] (constructor defaultSettings))
       (mode (run [Start 1000, Pause 0] (constructor defaultSettings))) \<and>
   remainingMs (run [Start 1000, Tick 0 0 0] (constructor defaultSettings)) = 1501000 \<and>
   modeToMs (run [Start 1000, Tick 0 0 0] (constructor defaultSettings))
     (mode (run [Start 1000, Tick 0 0 0] (constructor defaultSettings))) = 1500000"
  by (simp add: validSettings_def constructor_def defaultSettings_def modeToMs_def start_def
      ensureTicker_def pause_def tick_def emit_def Let_def)

section \<open>What the engine calls\<close>

lemma emit_trace:
  "trace (emit mc t) = trace t @ (if listener t then [Emit (snapshotOf mc (emit mc t))] else [])"
  by (simp add: emit_def snapshotOf_def modeToMs_def)

lemma pause_trace:
  "trace (pause now t) =
     trace t @ (if isRunning t then (case intervalId t of Some h \<Rightarrow> [ClearInterval h] | None \<Rightarrow> [])
                else [])"
  by (cases "isRunning t") (simp_all add: pause_idle pause_running)

lemma start_trace:
  "trace (start now t) =
     trace t @ (if \<not> isRunning t \<and> intervalId t = None then [SetInterval (Suc (timerSeq t))]
                else [])"
  by (cases "isRunning t") (simp_all add: start_running start_idle_trace)

lemma pause_intervalId:
  "intervalId (pause now t) = (if isRunning t then None else intervalId t)"
  by (cases "isRunning t") (simp_all add: pause_idle pause_running)

lemma advanceMode_emit:
  obtains u where "advanceMode now t = emit True u"
    and "trace u = trace t @ (if autoStart (settings t) \<and> intervalId t = None
                              then [SetInterval (Suc (timerSeq t))] else [])"
    and "listener u = listener t"
proof -
  let ?t1 = "if mode t = Work
                then (let isEndOfRound = (cycleInRound t \<ge> cyclesPerRound (settings t));
                          t0 = t\<lparr>mode := (if isEndOfRound then Long else Short)\<rparr>
                      in if isEndOfRound
                         then t0\<lparr>cycleInRound := 1, roundN := roundN t0 + 1\<rparr>
                         else t0\<lparr>cycleInRound := cycleInRound t0 + 1\<rparr>)
                else t\<lparr>mode := Work\<rparr>"
  let ?t2 = "?t1\<lparr>remainingMs := modeToMs ?t1 (mode ?t1)\<rparr>"
  let ?t3 = "if autoStart (settings ?t2)
                then ensureTicker
                       (?t2\<lparr>isRunning := True, startedAt := Some now,
                           endAt := Some (now + remainingMs ?t2)\<rparr>)
                else ?t2\<lparr>isRunning := False, startedAt := None, endAt := None\<rparr>"
  have a: "advanceMode now t = emit True ?t3"
    by (simp add: advanceMode_def Let_def)
  have b: "trace ?t3 = trace t @ (if autoStart (settings t) \<and> intervalId t = None
                              then [SetInterval (Suc (timerSeq t))] else [])"
    by (simp add: ensureTicker_def Let_def)
  have c: "listener ?t3 = listener t"
    by (simp add: ensureTicker_def Let_def)
  show ?thesis using a b c by (rule that)
qed

lemma advanceMode_trace:
  "trace (advanceMode now t) =
     trace t @
     (if autoStart (settings t) \<and> intervalId t = None then [SetInterval (Suc (timerSeq t))]
      else []) @
     (if listener t then [Emit (snapshotOf True (advanceMode now t))] else [])"
proof -
  obtain u where u: "advanceMode now t = emit True u"
    "trace u = trace t @ (if autoStart (settings t) \<and> intervalId t = None
                              then [SetInterval (Suc (timerSeq t))] else [])"
    "listener u = listener t"
    by (rule advanceMode_emit)
  show ?thesis
    unfolding u(1) by (simp add: emit_trace u(2,3))
qed

lemma alarm_free_advanceMode:
  "filter isAlarm (trace (advanceMode now t)) = filter isAlarm (trace t)"
  by (simp add: advanceMode_trace)


section \<open>The interval callback\<close>

lemma tick_waiting:
  assumes "isRunning t" "endAt t = Some e" "now < e"
  shows "tick now nowP nowA t = emit False (t\<lparr>lastTick := Some now, remainingMs := e - now\<rparr>)"
  using assms by (simp add: tick_running)

lemma tick_waiting_fields:
  assumes "isRunning t" "endAt t = Some e" "now < e"
  shows "remainingMs (tick now nowP nowA t) = e - now"
    and "endAt (tick now nowP nowA t) = Some e"
    and "isRunning (tick now nowP nowA t)"
    and "mode (tick now nowP nowA t) = mode t"
    and "filter isAlarm (trace (tick now nowP nowA t)) = filter isAlarm (trace t)"
  unfolding tick_waiting [OF assms] by (simp_all add: emit_fields assms(1,2) emit_trace)

lemma tick_completing:
  assumes "isRunning t" "endAt t = Some e" "e \<le> now"
  shows "tick now nowP nowA t =
      onComplete nowP nowA (t\<lparr>lastTick := Some now, remainingMs := 0\<rparr>)"
  using assms by (simp add: tick_running)

lemma tick_overwrites:
  assumes "isRunning t" "endAt t = Some e"
  shows "tick now nowP nowA (t\<lparr>remainingMs := r\<rparr>) = tick now nowP nowA t"
  using assms by (simp add: tick_running)

text \<open>
  The interval callback of \<^verbatim>\<open>app.js\<close>. While the engine is running with \<open>endAt\<close> set to \<open>e\<close>, a firing of the interval
  timer at time \<open>now\<close> does not depend on the remaining time it finds: it computes
  \<open>max 0 (e - now)\<close> from the end time alone. Before the end (\<open>now < e\<close>) that value,
  which is positive, is the new remaining time, and the engine stays running towards the
  same end. A next firing \<open>S\<close> later, whatever \<open>S \<ge> 0\<close> is, then finds exactly \<open>S\<close>
  less when \<open>S\<close> is below the remaining time (never negative, and strictly less when
  \<open>S > 0\<close>), and otherwise computes 0 and runs the completion. At or after the end the
  firing computes 0 and runs the completion.
\<close>

theorem tick_from_endAt:
  "isRunning t \<and> endAt t = Some e \<longrightarrow>
     tick now nowP nowA (t\<lparr>remainingMs := r\<rparr>) = tick now nowP nowA t \<and>
     (now < e \<longrightarrow>
        remainingMs (tick now nowP nowA t) = max 0 (e - now) \<and>
        0 < remainingMs (tick now nowP nowA t) \<and>
        isRunning (tick now nowP nowA t) \<and> endAt (tick now nowP nowA t) = Some e \<and>
        (0 \<le> S \<and> S < remainingMs (tick now nowP nowA t) \<longrightarrow>
           remainingMs (tick (now + S) nowP' nowA' (tick now nowP nowA t)) =
             remainingMs (tick now nowP nowA t) - S \<and>
           0 \<le> remainingMs (tick (now + S) nowP' nowA' (tick now nowP nowA t)) \<and>
           (0 < S \<longrightarrow>
              remainingMs (tick (now + S) nowP' nowA' (tick now nowP nowA t)) <
                remainingMs (tick now nowP nowA t))) \<and>
        (remainingMs (tick now nowP nowA t) \<le> S \<longrightarrow>
           tick (now + S) nowP' nowA' (tick now nowP nowA t) =
             onComplete nowP' nowA'
               ((tick now nowP nowA t)\<lparr>lastTick := Some (now + S), remainingMs := 0\<rparr>))) \<and>
     (e \<le> now \<longrightarrow>
        tick now nowP nowA t =
          onComplete nowP nowA (t\<lparr>lastTick := Some now, remainingMs := 0\<rparr>))"
proof (intro impI, elim conjE)
  assume r: "isRunning t" and e: "endAt t = Some e"
  let ?u = "tick now nowP nowA t"
  have first: "tick now nowP nowA (t\<lparr>remainingMs := r\<rparr>) = ?u"
    using r e by (rule tick_overwrites)
  have fin: "?u = onComplete nowP nowA (t\<lparr>lastTick := Some now, remainingMs := 0\<rparr>)"
    if "e \<le> now"
    using r e that by (rule tick_completing)
  have wait: "remainingMs ?u = max 0 (e - now) \<and> 0 < remainingMs ?u \<and> isRunning ?u \<and>
      endAt ?u = Some e \<and>
      (0 \<le> S \<and> S < remainingMs ?u \<longrightarrow>
         remainingMs (tick (now + S) nowP' nowA' ?u) = remainingMs ?u - S \<and>
         0 \<le> remainingMs (tick (now + S) nowP' nowA' ?u) \<and>
         (0 < S \<longrightarrow> remainingMs (tick (now + S) nowP' nowA' ?u) < remainingMs ?u)) \<and>
      (remainingMs ?u \<le> S \<longrightarrow>
         tick (now + S) nowP' nowA' ?u =
           onComplete nowP' nowA' (?u\<lparr>lastTick := Some (now + S), remainingMs := 0\<rparr>))"
    if lt: "now < e"
  proof -
    have u: "remainingMs ?u = e - now" "endAt ?u = Some e" "isRunning ?u"
      using tick_waiting_fields [OF r e lt] by simp_all
    have stall: "remainingMs (tick (now + S) nowP' nowA' ?u) = remainingMs ?u - S"
      if "S < remainingMs ?u"
    proof -
      have "now + S < e" using that u(1) by simp
      then have "remainingMs (tick (now + S) nowP' nowA' ?u) = e - (now + S)"
        using tick_waiting_fields(1) [OF u(3) u(2)] by simp
      then show ?thesis using u(1) by simp
    qed
    have over: "tick (now + S) nowP' nowA' ?u =
        onComplete nowP' nowA' (?u\<lparr>lastTick := Some (now + S), remainingMs := 0\<rparr>)"
      if "remainingMs ?u \<le> S"
    proof -
      have "e \<le> now + S" using that u(1) by simp
      then show ?thesis using tick_completing [OF u(3) u(2)] by simp
    qed
    show ?thesis using u(1,2,3) lt stall over by simp
  qed
  show "tick now nowP nowA (t\<lparr>remainingMs := r\<rparr>) = ?u \<and>
     (now < e \<longrightarrow>
        remainingMs ?u = max 0 (e - now) \<and> 0 < remainingMs ?u \<and> isRunning ?u \<and>
        endAt ?u = Some e \<and>
        (0 \<le> S \<and> S < remainingMs ?u \<longrightarrow>
           remainingMs (tick (now + S) nowP' nowA' ?u) = remainingMs ?u - S \<and>
           0 \<le> remainingMs (tick (now + S) nowP' nowA' ?u) \<and>
           (0 < S \<longrightarrow> remainingMs (tick (now + S) nowP' nowA' ?u) < remainingMs ?u)) \<and>
        (remainingMs ?u \<le> S \<longrightarrow>
           tick (now + S) nowP' nowA' ?u =
             onComplete nowP' nowA' (?u\<lparr>lastTick := Some (now + S), remainingMs := 0\<rparr>))) \<and>
     (e \<le> now \<longrightarrow> ?u = onComplete nowP nowA (t\<lparr>lastTick := Some now, remainingMs := 0\<rparr>))"
    using first fin wait by blast
qed

theorem tick_from_endAt_witness:
  "isRunning (start 1000 (constructor defaultSettings)) \<and>
   endAt (start 1000 (constructor defaultSettings)) = Some 1501000 \<and>
   (1250::int) < 1501000 \<and>
   remainingMs (tick 1250 1250 1250 (start 1000 (constructor defaultSettings))) = 1499750 \<and>
   (0::int) < 60000 \<and>
   remainingMs (tick (1250 + 60000) 61250 61250
      (tick 1250 1250 1250 (start 1000 (constructor defaultSettings)))) = 1439750 \<and>
   tick 1250 1250 1250 ((start 1000 (constructor defaultSettings))\<lparr>remainingMs := 7\<rparr>) =
     tick 1250 1250 1250 (start 1000 (constructor defaultSettings)) \<and>
   tick (1250 + 1499750) 1501000 1501000
       (tick 1250 1250 1250 (start 1000 (constructor defaultSettings))) =
     onComplete 1501000 1501000
       ((tick 1250 1250 1250 (start 1000 (constructor defaultSettings)))
          \<lparr>lastTick := Some (1250 + 1499750), remainingMs := 0\<rparr>) \<and>
   tick 1501000 1501000 1501000 (start 1000 (constructor defaultSettings)) =
     onComplete 1501000 1501000
       ((start 1000 (constructor defaultSettings))\<lparr>lastTick := Some 1501000, remainingMs := 0\<rparr>)"
proof -
  let ?s = "start 1000 (constructor defaultSettings)"
  have a: "\<not> isRunning (constructor defaultSettings)"
    "remainingMs (constructor defaultSettings) = 1500000"
    by (simp_all add: constructor_def defaultSettings_def modeToMs_def)
  have s: "isRunning ?s" "endAt ?s = Some 1501000"
    using a by (simp_all add: start_fields start_idle)
  note A = tick_from_endAt [of ?s 1501000 1250 1250 1250 7 60000 61250 61250]
  note B = tick_from_endAt [of ?s 1501000 1250 1250 1250 7 1499750 1501000 1501000]
  note C = tick_from_endAt [of ?s 1501000 1501000 1501000 1501000 7 0 0 0]
  have r1: "remainingMs (tick 1250 1250 1250 ?s) = 1499750"
    using A s by simp
  have r2: "remainingMs (tick (1250 + 60000) 61250 61250 (tick 1250 1250 1250 ?s)) = 1439750"
    using A s r1 by simp
  have r3: "tick 1250 1250 1250 (?s\<lparr>remainingMs := 7\<rparr>) = tick 1250 1250 1250 ?s"
    using A s by simp
  have r4: "tick (1250 + 1499750) 1501000 1501000 (tick 1250 1250 1250 ?s) =
     onComplete 1501000 1501000
       ((tick 1250 1250 1250 ?s)\<lparr>lastTick := Some (1250 + 1499750), remainingMs := 0\<rparr>)"
    using B s r1 by simp
  have r5: "tick 1501000 1501000 1501000 ?s =
     onComplete 1501000 1501000 (?s\<lparr>lastTick := Some 1501000, remainingMs := 0\<rparr>)"
    using C s by simp
  show ?thesis using s r1 r2 r3 r4 r5 by simp
qed


section \<open>Completion and skip\<close>

lemma onComplete_trace:
  assumes "isRunning t"
  shows "trace (onComplete nowP nowA t) =
      trace t @ (case intervalId t of Some h \<Rightarrow> [ClearInterval h] | None \<Rightarrow> []) @
      [Beep, Notify (modeLabel (mode t) @ '' completed'') ''Time to switch!''] @
      (if autoStart (settings t) then [SetInterval (Suc (timerSeq t))] else []) @
      (if listener t then [Emit (snapshotOf True (onComplete nowP nowA t))] else [])"
proof -
  let ?n = "notify (modeLabel (mode t) @ '' completed'') ''Time to switch!''
      (beep (pause nowP t))"
  have n: "settings ?n = settings t" "listener ?n = listener t" "timerSeq ?n = timerSeq t"
    "intervalId ?n = None"
    "trace ?n = trace t @ (case intervalId t of Some h \<Rightarrow> [ClearInterval h] | None \<Rightarrow> []) @
       [Beep, Notify (modeLabel (mode t) @ '' completed'') ''Time to switch!'']"
    using assms by (simp_all add: notify_def beep_def pause_fields pause_running)
  show ?thesis
    unfolding onComplete_unfold by (simp add: advanceMode_trace n)
qed

lemma onComplete_rest:
  assumes "isRunning t"
  shows "intervalId (onComplete nowP nowA t) =
      (if autoStart (settings t) then Some (Suc (timerSeq t)) else None)"
    and "endAt (onComplete nowP nowA t) =
      (if autoStart (settings t) then Some (nowA + remainingMs (onComplete nowP nowA t))
       else None)"
proof -
  let ?n = "notify (modeLabel (mode t) @ '' completed'') ''Time to switch!''
      (beep (pause nowP t))"
  have n: "settings ?n = settings t" "timerSeq ?n = timerSeq t" "intervalId ?n = None"
    using assms by (simp_all add: notify_def beep_def pause_fields pause_running)
  show "intervalId (onComplete nowP nowA t) =
      (if autoStart (settings t) then Some (Suc (timerSeq t)) else None)"
    unfolding onComplete_unfold by (simp add: advanceMode_intervalId n)
  show "endAt (onComplete nowP nowA t) =
      (if autoStart (settings t) then Some (nowA + remainingMs (onComplete nowP nowA t))
       else None)"
    unfolding onComplete_unfold by (simp add: advanceMode_endAt n)
qed

text \<open>
  C5. A skip calls neither \<open>beep\<close> nor \<open>notify\<close>, and neither does a firing of the
  interval timer before the end of the session. A firing at or after the end, with the
  engine running, is the completion: it pauses the engine (clearing the interval timer it
  holds), then calls \<open>beep\<close>, then \<open>notify\<close> with the title of the mode that ended, then
  advances the mode (which, with auto-start, creates a new interval timer, and tells the
  listener); both collaborators are called exactly once. Afterwards, without auto-start
  the engine is not running and holds no interval timer, so a further firing changes
  nothing; with auto-start a further firing before the end of the new session calls
  neither collaborator.
\<close>

theorem C5_completion:
  "filter isAlarm (trace (skip now t)) = filter isAlarm (trace t) \<and>
   (isRunning t \<and> endAt t = Some e \<and> now < e \<longrightarrow>
      filter isAlarm (trace (tick now nowP nowA t)) = filter isAlarm (trace t)) \<and>
   (isRunning t \<and> endAt t = Some e \<and> e \<le> now \<longrightarrow>
      tick now nowP nowA t =
        advanceMode nowA
          (notify (modeLabel (mode t) @ '' completed'') ''Time to switch!''
            (beep (pause nowP (t\<lparr>lastTick := Some now, remainingMs := 0\<rparr>)))) \<and>
      trace (tick now nowP nowA t) =
        trace t @ (case intervalId t of Some h \<Rightarrow> [ClearInterval h] | None \<Rightarrow> []) @
        [Beep, Notify (modeLabel (mode t) @ '' completed'') ''Time to switch!''] @
        (if autoStart (settings t) then [SetInterval (Suc (timerSeq t))] else []) @
        (if listener t then [Emit (snapshotOf True (tick now nowP nowA t))] else []) \<and>
      filter isAlarm (trace (tick now nowP nowA t)) =
        filter isAlarm (trace t) @
        [Beep, Notify (modeLabel (mode t) @ '' completed'') ''Time to switch!''] \<and>
      (\<not> autoStart (settings t) \<longrightarrow>
         \<not> isRunning (tick now nowP nowA t) \<and> intervalId (tick now nowP nowA t) = None \<and>
         tick n p a (tick now nowP nowA t) = tick now nowP nowA t \<and>
         step (Tick n p a) (tick now nowP nowA t) = tick now nowP nowA t) \<and>
      (autoStart (settings t) \<and> n < nowA + remainingMs (tick now nowP nowA t) \<longrightarrow>
         filter isAlarm (trace (tick n p a (tick now nowP nowA t))) =
           filter isAlarm (trace (tick now nowP nowA t))))"
proof -
  let ?u = "tick now nowP nowA t"
  let ?t0 = "t\<lparr>lastTick := Some now, remainingMs := 0\<rparr>"
  have quiet: "filter isAlarm (trace (skip now t)) = filter isAlarm (trace t)"
    by (simp add: skip_def alarm_free_advanceMode)
  have wait: "filter isAlarm (trace ?u) = filter isAlarm (trace t)"
    if "isRunning t" "endAt t = Some e" "now < e"
    using tick_waiting_fields [OF that] by simp
  have fire: "?u = advanceMode nowA
          (notify (modeLabel (mode t) @ '' completed'') ''Time to switch!'' (beep (pause nowP ?t0))) \<and>
      trace ?u =
        trace t @ (case intervalId t of Some h \<Rightarrow> [ClearInterval h] | None \<Rightarrow> []) @
        [Beep, Notify (modeLabel (mode t) @ '' completed'') ''Time to switch!''] @
        (if autoStart (settings t) then [SetInterval (Suc (timerSeq t))] else []) @
        (if listener t then [Emit (snapshotOf True ?u)] else []) \<and>
      filter isAlarm (trace ?u) =
        filter isAlarm (trace t) @
        [Beep, Notify (modeLabel (mode t) @ '' completed'') ''Time to switch!''] \<and>
      (\<not> autoStart (settings t) \<longrightarrow>
         \<not> isRunning ?u \<and> intervalId ?u = None \<and> tick n p a ?u = ?u \<and>
         step (Tick n p a) ?u = ?u) \<and>
      (autoStart (settings t) \<and> n < nowA + remainingMs ?u \<longrightarrow>
         filter isAlarm (trace (tick n p a ?u)) = filter isAlarm (trace ?u))"
    if r: "isRunning t" and e: "endAt t = Some e" and le: "e \<le> now"
  proof -
    have u: "?u = onComplete nowP nowA ?t0"
      using r e le by (rule tick_completing)
    have r0: "isRunning ?t0" using r by simp
    have 1: "?u = advanceMode nowA
          (notify (modeLabel (mode t) @ '' completed'') ''Time to switch!'' (beep (pause nowP ?t0)))"
      unfolding u onComplete_unfold by simp
    have 2: "trace ?u =
        trace t @ (case intervalId t of Some h \<Rightarrow> [ClearInterval h] | None \<Rightarrow> []) @
        [Beep, Notify (modeLabel (mode t) @ '' completed'') ''Time to switch!''] @
        (if autoStart (settings t) then [SetInterval (Suc (timerSeq t))] else []) @
        (if listener t then [Emit (snapshotOf True ?u)] else [])"
      using onComplete_trace [OF r0, of nowP nowA] unfolding u [symmetric] by simp
    have 3: "filter isAlarm (trace ?u) =
        filter isAlarm (trace t) @
        [Beep, Notify (modeLabel (mode t) @ '' completed'') ''Time to switch!'']"
      unfolding 2 by (simp split: option.splits)
    have run: "isRunning ?u = autoStart (settings t)"
      unfolding u by (simp add: onComplete_fields)
    have iv: "intervalId ?u = (if autoStart (settings t) then Some (Suc (timerSeq t)) else None)"
      and en: "endAt ?u = (if autoStart (settings t) then Some (nowA + remainingMs ?u) else None)"
      using onComplete_rest [OF r0, of nowP nowA] unfolding u [symmetric] by simp_all
    have 4: "\<not> isRunning ?u \<and> intervalId ?u = None \<and> tick n p a ?u = ?u \<and>
        step (Tick n p a) ?u = ?u"
      if "\<not> autoStart (settings t)"
      using that run iv by (simp add: tick_idle)
    have 5: "filter isAlarm (trace (tick n p a ?u)) = filter isAlarm (trace ?u)"
      if "autoStart (settings t)" "n < nowA + remainingMs ?u"
    proof -
      have "isRunning ?u" "endAt ?u = Some (nowA + remainingMs ?u)"
        using that(1) run en by simp_all
      then show ?thesis using that(2) by (rule tick_waiting_fields(5))
    qed
    show ?thesis using 1 2 3 4 5 by blast
  qed
  show ?thesis using quiet wait fire by blast
qed

theorem C5_completion_witness:
  "isRunning (start 1000 (onChange (constructor defaultSettings))) \<and>
   endAt (start 1000 (onChange (constructor defaultSettings))) = Some 1501000 \<and>
   (1501000::int) \<le> 1501000 \<and>
   \<not> autoStart (settings (start 1000 (onChange (constructor defaultSettings)))) \<and>
   trace (tick 1501000 1501002 1501003 (start 1000 (onChange (constructor defaultSettings)))) =
     [SetInterval 1, ClearInterval 1, Beep, Notify ''Work completed'' ''Time to switch!'',
      Emit (Snapshot Short 300000 2 1 300000 False True)] \<and>
   filter isAlarm
     (trace (tick 1501000 1501002 1501003 (start 1000 (onChange (constructor defaultSettings))))) =
     [Beep, Notify ''Work completed'' ''Time to switch!''] \<and>
   tick 1501250 1501250 1501250
     (tick 1501000 1501002 1501003 (start 1000 (onChange (constructor defaultSettings)))) =
     tick 1501000 1501002 1501003 (start 1000 (onChange (constructor defaultSettings))) \<and>
   filter isAlarm (trace (skip 7 (start 1000 (onChange (constructor defaultSettings))))) = [] \<and>
   (1250::int) < 1501000 \<and>
   filter isAlarm
     (trace (tick 1250 1250 1250 (start 1000 (onChange (constructor defaultSettings))))) = [] \<and>
   isRunning (start 1000 (constructor (defaultSettings\<lparr>autoStart := True\<rparr>))) \<and>
   endAt (start 1000 (constructor (defaultSettings\<lparr>autoStart := True\<rparr>))) = Some 1501000 \<and>
   autoStart (settings (start 1000 (constructor (defaultSettings\<lparr>autoStart := True\<rparr>)))) \<and>
   remainingMs (tick 1501000 1501002 1501003
     (start 1000 (constructor (defaultSettings\<lparr>autoStart := True\<rparr>)))) = 300000 \<and>
   (1501250::int) < 1501003 + 300000 \<and>
   filter isAlarm (trace (tick 1501250 1501250 1501250
     (tick 1501000 1501002 1501003
       (start 1000 (constructor (defaultSettings\<lparr>autoStart := True\<rparr>)))))) =
     [Beep, Notify ''Work completed'' ''Time to switch!'']"
proof -
  let ?a = "start 1000 (onChange (constructor defaultSettings))"
  let ?b = "start 1000 (constructor (defaultSettings\<lparr>autoStart := True\<rparr>))"
  have a: "?a = \<lparr>settings = defaultSettings, mode = Work, cycleInRound = 1, roundN = 1,
       isRunning = True, startedAt = Some 1000, endAt = Some 1501000,
       remainingMs = 1500000, intervalId = Some 1, lastTick = Some 1000, listener = True,
       timerSeq = 1, trace = [SetInterval 1]\<rparr>"
    by (simp add: constructor_def defaultSettings_def modeToMs_def onChange_def start_def
        ensureTicker_def Let_def)
  have b: "?b = \<lparr>settings = defaultSettings\<lparr>autoStart := True\<rparr>, mode = Work,
       cycleInRound = 1, roundN = 1,
       isRunning = True, startedAt = Some 1000, endAt = Some 1501000,
       remainingMs = 1500000, intervalId = Some 1, lastTick = Some 1000, listener = False,
       timerSeq = 1, trace = [SetInterval 1]\<rparr>"
    by (simp add: constructor_def defaultSettings_def modeToMs_def start_def
        ensureTicker_def Let_def)
  have fa: "isRunning ?a" "endAt ?a = Some 1501000" "\<not> autoStart (settings ?a)"
    "trace ?a = [SetInterval 1]" "intervalId ?a = Some 1" "timerSeq ?a = 1" "listener ?a"
    "mode ?a = Work"
    unfolding a by (simp_all add: defaultSettings_def)
  have fb: "isRunning ?b" "endAt ?b = Some 1501000" "autoStart (settings ?b)"
    "trace ?b = [SetInterval 1]" "intervalId ?b = Some 1" "timerSeq ?b = 1" "\<not> listener ?b"
    "mode ?b = Work"
    unfolding b by (simp_all add: defaultSettings_def)
  have ua: "snapshotOf True (tick 1501000 1501002 1501003 ?a) =
      Snapshot Short 300000 2 1 300000 False True"
    unfolding a
    by (simp add: tick_def onComplete_def pause_def beep_def notify_def advanceMode_def
        emit_def snapshotOf_def modeToMs_def defaultSettings_def Let_def)
  have ub: "remainingMs (tick 1501000 1501002 1501003 ?b) = 300000"
    unfolding b
    by (simp add: tick_def onComplete_def pause_def beep_def notify_def advanceMode_def
        emit_def ensureTicker_def modeToMs_def defaultSettings_def Let_def)
  let ?ua = "tick 1501000 1501002 1501003 ?a"
  let ?ub = "tick 1501000 1501002 1501003 ?b"
  have le: "(1501000::int) \<le> 1501000" "(1250::int) < 1501000" by simp_all
  note A = C5_completion [where t = ?a and e = 1501000 and now = 1501000 and nowP = 1501002
      and nowA = 1501003 and n = 1501250 and p = 1501250 and a = 1501250]
  note A' = C5_completion [where t = ?a and e = 1501000 and now = 7 and nowP = 7
      and nowA = 7 and n = 0 and p = 0 and a = 0]
  note A'' = C5_completion [where t = ?a and e = 1501000 and now = 1250 and nowP = 1250
      and nowA = 1250 and n = 0 and p = 0 and a = 0]
  note B = C5_completion [where t = ?b and e = 1501000 and now = 1501000 and nowP = 1501002
      and nowA = 1501003 and n = 1501250 and p = 1501250 and a = 1501250]
  have "trace ?ua =
      trace ?a @ (case intervalId ?a of Some h \<Rightarrow> [ClearInterval h] | None \<Rightarrow> []) @
      [Beep, Notify (modeLabel (mode ?a) @ '' completed'') ''Time to switch!''] @
      (if autoStart (settings ?a) then [SetInterval (Suc (timerSeq ?a))] else []) @
      (if listener ?a then [Emit (snapshotOf True ?ua)] else [])"
    using A fa(1,2) le(1) by blast
  then have 1: "trace ?ua =
     [SetInterval 1, ClearInterval 1, Beep, Notify ''Work completed'' ''Time to switch!'',
      Emit (Snapshot Short 300000 2 1 300000 False True)]"
    by (simp add: fa ua)
  have "filter isAlarm (trace ?ua) = filter isAlarm (trace ?a) @
      [Beep, Notify (modeLabel (mode ?a) @ '' completed'') ''Time to switch!'']"
    using A fa(1,2) le(1) by blast
  then have 2: "filter isAlarm (trace ?ua) =
     [Beep, Notify ''Work completed'' ''Time to switch!'']"
    by (simp add: fa)
  have 3: "tick 1501250 1501250 1501250 ?ua = ?ua"
    using A fa(1,2,3) le(1) by blast
  have "filter isAlarm (trace (skip 7 ?a)) = filter isAlarm (trace ?a)"
    using A' by blast
  then have 4: "filter isAlarm (trace (skip 7 ?a)) = []"
    by (simp add: fa)
  have "filter isAlarm (trace (tick 1250 1250 1250 ?a)) = filter isAlarm (trace ?a)"
    using A'' fa(1,2) le(2) by blast
  then have 5: "filter isAlarm (trace (tick 1250 1250 1250 ?a)) = []"
    by (simp add: fa)
  have "filter isAlarm (trace ?ub) = filter isAlarm (trace ?b) @
      [Beep, Notify (modeLabel (mode ?b) @ '' completed'') ''Time to switch!'']"
    using B fb(1,2) le(1) by blast
  then have 6: "filter isAlarm (trace ?ub) =
     [Beep, Notify ''Work completed'' ''Time to switch!'']"
    by (simp add: fb)
  have "(1501250::int) < 1501003 + remainingMs ?ub"
    by (simp add: ub)
  then have "filter isAlarm (trace (tick 1501250 1501250 1501250 ?ub)) =
      filter isAlarm (trace ?ub)"
    using B fb(1,2,3) le(1) by blast
  then have 7: "filter isAlarm (trace (tick 1501250 1501250 1501250 ?ub)) =
      [Beep, Notify ''Work completed'' ''Time to switch!'']"
    using 6 by simp
  show ?thesis
    using fa(1,2,3) fb(1,2,3) 1 2 3 4 5 ub 7 by simp
qed

section \<open>Changing the settings\<close>

lemma setSettings_emit:
  obtains u where "setSettings cfg nowP nowS t = emit True u"
    and "trace u = trace t @
      (if isRunning t
       then (case intervalId t of Some h \<Rightarrow> [ClearInterval h] | None \<Rightarrow> []) @
            [SetInterval (Suc (timerSeq t))]
       else [])"
    and "listener u = listener t"
proof -
  let ?t1 = "pause nowP t"
  let ?t2 = "?t1\<lparr>settings := cfg\<rparr>"
  let ?t3 = "?t2\<lparr>remainingMs := modeToMs ?t2 (mode ?t2)\<rparr>"
  let ?t4 = "if isRunning t then start nowS ?t3 else ?t3"
  have a: "setSettings cfg nowP nowS t = emit True ?t4"
    by (simp add: setSettings_def Let_def)
  have b: "trace ?t4 = trace t @
      (if isRunning t
       then (case intervalId t of Some h \<Rightarrow> [ClearInterval h] | None \<Rightarrow> []) @
            [SetInterval (Suc (timerSeq t))]
       else [])"
    by (simp add: start_trace pause_fields pause_trace pause_intervalId)
  have c: "listener ?t4 = listener t"
    by (simp add: start_fields pause_fields)
  show ?thesis using a b c by (rule that)
qed

lemma setSettings_trace:
  "trace (setSettings cfg nowP nowS t) =
     trace t @
     (if isRunning t
      then (case intervalId t of Some h \<Rightarrow> [ClearInterval h] | None \<Rightarrow> []) @
           [SetInterval (Suc (timerSeq t))]
      else []) @
     (if listener t then [Emit (snapshotOf True (setSettings cfg nowP nowS t))] else [])"
proof -
  obtain u where u: "setSettings cfg nowP nowS t = emit True u"
    "trace u = trace t @
      (if isRunning t
       then (case intervalId t of Some h \<Rightarrow> [ClearInterval h] | None \<Rightarrow> []) @
            [SetInterval (Suc (timerSeq t))]
       else [])"
    "listener u = listener t"
    by (rule setSettings_emit)
  show ?thesis
    unfolding u(1) by (simp add: emit_trace u(2,3))
qed

lemma snapshotOf_setSettings:
  "snapshotOf mc (setSettings cfg nowP nowS t) =
     Snapshot (mode t) (remainingMs (setSettings cfg nowP nowS t)) (cycleInRound t) (roundN t)
       (remainingMs (setSettings cfg nowP nowS t)) (isRunning t) mc"
  by (simp add: snapshotOf_def setSettings_fields modeToMs_setSettings)

text \<open>
  \<open>setSettings\<close> of \<^verbatim>\<open>app.js\<close>. After it, in any state, the settings are the new ones, the mode is
  unchanged, the remaining time is the full duration of the mode under the new settings,
  and the engine is running exactly when it was running before, then towards the time
  read by \<open>start\<close> plus that duration. When a listener is subscribed the last call the
  engine makes is to the listener, running or not, with a snapshot of the new state
  whose \<open>modeChanged\<close> flag is true.
\<close>

theorem setSettings_resets:
  "settings (setSettings cfg nowP nowS t) = cfg \<and>
   mode (setSettings cfg nowP nowS t) = mode t \<and>
   remainingMs (setSettings cfg nowP nowS t) =
     modeToMs (setSettings cfg nowP nowS t) (mode (setSettings cfg nowP nowS t)) \<and>
   (isRunning (setSettings cfg nowP nowS t) \<longleftrightarrow> isRunning t) \<and>
   (isRunning t \<longrightarrow>
      endAt (setSettings cfg nowP nowS t) =
        Some (nowS + remainingMs (setSettings cfg nowP nowS t))) \<and>
   (listener t \<longrightarrow>
      trace (setSettings cfg nowP nowS t) =
        trace t @
        (if isRunning t
         then (case intervalId t of Some h \<Rightarrow> [ClearInterval h] | None \<Rightarrow> []) @
              [SetInterval (Suc (timerSeq t))]
         else []) @
        [Emit (Snapshot (mode t) (remainingMs (setSettings cfg nowP nowS t)) (cycleInRound t)
                 (roundN t) (remainingMs (setSettings cfg nowP nowS t)) (isRunning t) True)])"
proof -
  have r: "remainingMs (setSettings cfg nowP nowS t) =
      modeToMs (setSettings cfg nowP nowS t) (mode (setSettings cfg nowP nowS t))"
    by (simp add: setSettings_fields modeToMs_setSettings)
  have e: "isRunning t \<Longrightarrow> endAt (setSettings cfg nowP nowS t) =
      Some (nowS + remainingMs (setSettings cfg nowP nowS t))"
    by (simp add: setSettings_endAt)
  have tr: "listener t \<Longrightarrow> trace (setSettings cfg nowP nowS t) =
        trace t @
        (if isRunning t
         then (case intervalId t of Some h \<Rightarrow> [ClearInterval h] | None \<Rightarrow> []) @
              [SetInterval (Suc (timerSeq t))]
         else []) @
        [Emit (Snapshot (mode t) (remainingMs (setSettings cfg nowP nowS t)) (cycleInRound t)
                 (roundN t) (remainingMs (setSettings cfg nowP nowS t)) (isRunning t) True)]"
    by (subst setSettings_trace) (simp add: snapshotOf_setSettings)
  show ?thesis
    using r e tr by (simp add: setSettings_fields)
qed


theorem setSettings_resets_witness:
  "isRunning (start 0 (onChange (constructor defaultSettings))) \<and>
   listener (start 0 (onChange (constructor defaultSettings))) \<and>
   remainingMs (setSettings (defaultSettings\<lparr>workMinutes := 30\<rparr>) 5000 5001
      (start 0 (onChange (constructor defaultSettings)))) = 1800000 \<and>
   isRunning (setSettings (defaultSettings\<lparr>workMinutes := 30\<rparr>) 5000 5001
      (start 0 (onChange (constructor defaultSettings)))) \<and>
   endAt (setSettings (defaultSettings\<lparr>workMinutes := 30\<rparr>) 5000 5001
      (start 0 (onChange (constructor defaultSettings)))) = Some 1805001 \<and>
   trace (setSettings (defaultSettings\<lparr>workMinutes := 30\<rparr>) 5000 5001
      (start 0 (onChange (constructor defaultSettings)))) =
     [SetInterval 1, ClearInterval 1, SetInterval 2,
      Emit (Snapshot Work 1800000 1 1 1800000 True True)] \<and>
   \<not> isRunning (onChange (constructor defaultSettings)) \<and>
   listener (onChange (constructor defaultSettings)) \<and>
   remainingMs (setSettings (defaultSettings\<lparr>workMinutes := 30\<rparr>) 5000 5001
      (onChange (constructor defaultSettings))) = 1800000 \<and>
   \<not> isRunning (setSettings (defaultSettings\<lparr>workMinutes := 30\<rparr>) 5000 5001
      (onChange (constructor defaultSettings))) \<and>
   trace (setSettings (defaultSettings\<lparr>workMinutes := 30\<rparr>) 5000 5001
      (onChange (constructor defaultSettings))) =
     [Emit (Snapshot Work 1800000 1 1 1800000 False True)]"
proof -
  let ?a = "start 0 (onChange (constructor defaultSettings))"
  let ?b = "onChange (constructor defaultSettings)"
  let ?cfg = "defaultSettings\<lparr>workMinutes := 30\<rparr>"
  have a: "?a = \<lparr>settings = defaultSettings, mode = Work, cycleInRound = 1, roundN = 1,
       isRunning = True, startedAt = Some 0, endAt = Some 1500000,
       remainingMs = 1500000, intervalId = Some 1, lastTick = Some 0, listener = True,
       timerSeq = 1, trace = [SetInterval 1]\<rparr>"
    by (simp add: constructor_def defaultSettings_def modeToMs_def onChange_def start_def
        ensureTicker_def Let_def)
  have b: "?b = \<lparr>settings = defaultSettings, mode = Work, cycleInRound = 1, roundN = 1,
       isRunning = False, startedAt = None, endAt = None,
       remainingMs = 1500000, intervalId = None, lastTick = None, listener = True,
       timerSeq = 0, trace = []\<rparr>"
    by (simp add: constructor_def defaultSettings_def modeToMs_def onChange_def)
  have fa: "isRunning ?a" "listener ?a" "mode ?a = Work" "cycleInRound ?a = 1" "roundN ?a = 1"
    "intervalId ?a = Some 1" "timerSeq ?a = 1" "trace ?a = [SetInterval 1]"
    unfolding a by simp_all
  have fb: "\<not> isRunning ?b" "listener ?b" "mode ?b = Work" "cycleInRound ?b = 1"
    "roundN ?b = 1" "trace ?b = []"
    unfolding b by simp_all
  have w: "workMinutes ?cfg = 30" by simp
  note A = setSettings_resets [of ?cfg 5000 5001 ?a]
  note B = setSettings_resets [of ?cfg 5000 5001 ?b]
  have ra: "remainingMs (setSettings ?cfg 5000 5001 ?a) = 1800000"
    using A fa(3) w by (simp add: modeToMs_simps)
  have rb: "remainingMs (setSettings ?cfg 5000 5001 ?b) = 1800000"
    using B fb(3) w by (simp add: modeToMs_simps)
  have ia: "isRunning (setSettings ?cfg 5000 5001 ?a)"
    using A fa(1) by blast
  have ib: "\<not> isRunning (setSettings ?cfg 5000 5001 ?b)"
    using B fb(1) by blast
  have "endAt (setSettings ?cfg 5000 5001 ?a) =
      Some (5001 + remainingMs (setSettings ?cfg 5000 5001 ?a))"
    using A fa(1) by blast
  then have ea: "endAt (setSettings ?cfg 5000 5001 ?a) = Some 1805001"
    using ra by simp
  have "trace (setSettings ?cfg 5000 5001 ?a) =
        trace ?a @
        (if isRunning ?a
         then (case intervalId ?a of Some h \<Rightarrow> [ClearInterval h] | None \<Rightarrow> []) @
              [SetInterval (Suc (timerSeq ?a))]
         else []) @
        [Emit (Snapshot (mode ?a) (remainingMs (setSettings ?cfg 5000 5001 ?a)) (cycleInRound ?a)
                 (roundN ?a) (remainingMs (setSettings ?cfg 5000 5001 ?a)) (isRunning ?a) True)]"
    using A fa(2) by blast
  then have ta: "trace (setSettings ?cfg 5000 5001 ?a) =
     [SetInterval 1, ClearInterval 1, SetInterval 2,
      Emit (Snapshot Work 1800000 1 1 1800000 True True)]"
    by (simp add: fa ra)
  have "trace (setSettings ?cfg 5000 5001 ?b) =
        trace ?b @
        (if isRunning ?b
         then (case intervalId ?b of Some h \<Rightarrow> [ClearInterval h] | None \<Rightarrow> []) @
              [SetInterval (Suc (timerSeq ?b))]
         else []) @
        [Emit (Snapshot (mode ?b) (remainingMs (setSettings ?cfg 5000 5001 ?b)) (cycleInRound ?b)
                 (roundN ?b) (remainingMs (setSettings ?cfg 5000 5001 ?b)) (isRunning ?b) True)]"
    using B fb(2) by blast
  then have tb: "trace (setSettings ?cfg 5000 5001 ?b) =
     [Emit (Snapshot Work 1800000 1 1 1800000 False True)]"
    by (simp add: fb rb)
  show ?thesis
    using fa(1,2) fb(1,2) ra rb ia ib ea ta tb by simp
qed

text \<open>
  C10. The \<open>modeChanged\<close> flag of a snapshot does not say that the mode changed. After
  the page's start-up (subscribe, first paint) a change of settings makes the listener
  receive a second snapshot with \<open>modeChanged\<close> true and the mode of the first, Work,
  whatever the old and new settings are. In general, when the engine is paused and the
  last snapshot sent carries the current mode, \<open>setSettings\<close> sends next a snapshot with
  \<open>modeChanged\<close> true and that same mode.
\<close>

theorem C10_modeChanged:
  "trace (run [OnChange, EmitOp True, SetSettings cfg' nowP nowS] (constructor cfg)) =
     [Emit (Snapshot Work (workMinutes cfg * 60000) 1 1 (workMinutes cfg * 60000) False True),
      Emit (Snapshot Work (workMinutes cfg' * 60000) 1 1 (workMinutes cfg' * 60000) False True)] \<and>
   (listener t \<and> \<not> isRunning t \<and> trace t = tr @ [Emit s] \<and> snap_mode s = mode t \<longrightarrow>
      (\<exists>s'. trace (setSettings cfg' nowP nowS t) = tr @ [Emit s, Emit s'] \<and>
            snap_modeChanged s' \<and> snap_mode s' = snap_mode s))"
proof -
  let ?t = "emit True (onChange (constructor cfg))"
  have f: "listener ?t" "\<not> isRunning ?t" "mode ?t = Work" "cycleInRound ?t = 1"
    "roundN ?t = 1"
    "trace ?t = [Emit (Snapshot Work (workMinutes cfg * 60000) 1 1 (workMinutes cfg * 60000)
       False True)]"
    by (simp_all add: emit_def onChange_def constructor_def modeToMs_def)
  have r: "remainingMs (setSettings cfg' nowP nowS ?t) = workMinutes cfg' * 60000"
    by (simp add: setSettings_fields f modeToMs_def)
  have 1: "trace (run [OnChange, EmitOp True, SetSettings cfg' nowP nowS] (constructor cfg)) =
     [Emit (Snapshot Work (workMinutes cfg * 60000) 1 1 (workMinutes cfg * 60000) False True),
      Emit (Snapshot Work (workMinutes cfg' * 60000) 1 1 (workMinutes cfg' * 60000) False True)]"
    by (simp add: setSettings_trace snapshotOf_setSettings f r)
  have 2: "\<exists>s'. trace (setSettings cfg' nowP nowS t) = tr @ [Emit s, Emit s'] \<and>
            snap_modeChanged s' \<and> snap_mode s' = snap_mode s"
    if "listener t" "\<not> isRunning t" "trace t = tr @ [Emit s]" "snap_mode s = mode t"
    using that by (simp add: setSettings_trace snapshotOf_setSettings)
  show ?thesis using 1 2 by blast
qed

theorem C10_modeChanged_witness:
  "trace (run [OnChange, EmitOp True, SetSettings defaultSettings 5 5]
      (constructor defaultSettings)) =
     [Emit (Snapshot Work 1500000 1 1 1500000 False True),
      Emit (Snapshot Work 1500000 1 1 1500000 False True)] \<and>
   listener (emit True (onChange (constructor defaultSettings))) \<and>
   \<not> isRunning (emit True (onChange (constructor defaultSettings))) \<and>
   trace (emit True (onChange (constructor defaultSettings))) =
     [] @ [Emit (Snapshot Work 1500000 1 1 1500000 False True)] \<and>
   snap_mode (Snapshot Work 1500000 1 1 1500000 False True) =
     mode (emit True (onChange (constructor defaultSettings))) \<and>
   (\<exists>s'. trace (setSettings defaultSettings 5 5
            (emit True (onChange (constructor defaultSettings)))) =
          [] @ [Emit (Snapshot Work 1500000 1 1 1500000 False True), Emit s'] \<and>
        snap_modeChanged s' \<and>
        snap_mode s' = snap_mode (Snapshot Work 1500000 1 1 1500000 False True))"
proof -
  let ?t = "emit True (onChange (constructor defaultSettings))"
  let ?s = "Snapshot Work 1500000 1 1 1500000 False True"
  have f: "listener ?t" "\<not> isRunning ?t" "trace ?t = [] @ [Emit ?s]" "snap_mode ?s = mode ?t"
    by (simp_all add: emit_def onChange_def constructor_def modeToMs_def defaultSettings_def)
  have w: "workMinutes defaultSettings * 60000 = 1500000"
    by (simp add: defaultSettings_def)
  note A = C10_modeChanged [of defaultSettings 5 5 defaultSettings ?t "[]" ?s]
  have 1: "trace (run [OnChange, EmitOp True, SetSettings defaultSettings 5 5]
      (constructor defaultSettings)) = [Emit ?s, Emit ?s]"
    using A unfolding w by blast
  have 2: "\<exists>s'. trace (setSettings defaultSettings 5 5 ?t) = [] @ [Emit ?s, Emit s'] \<and>
        snap_modeChanged s' \<and> snap_mode s' = snap_mode ?s"
    using A f by blast
  show ?thesis using 1 2 f by blast
qed


section \<open>The cycle and round counters\<close>

lemma constructor_fields:
  "settings (constructor cfg) = cfg" "mode (constructor cfg) = Work"
  "cycleInRound (constructor cfg) = 1" "roundN (constructor cfg) = 1"
  "\<not> isRunning (constructor cfg)" "endAt (constructor cfg) = None"
  "remainingMs (constructor cfg) = workMinutes cfg * 60000"
  "intervalId (constructor cfg) = None" "\<not> listener (constructor cfg)"
  "timerSeq (constructor cfg) = 0" "trace (constructor cfg) = []"
  by (simp_all add: constructor_def modeToMs_def)

text \<open>
  The cycle counter can exceed the cycles per round: one skip from the initial state
  under the default settings takes it to 2, and a change of settings to one cycle per
  round, which is valid, leaves it there.
\<close>

theorem C8_counterexample:
  "validSettings defaultSettings \<and> validSettings (defaultSettings\<lparr>cyclesPerRound := 1\<rparr>) \<and>
   cycleInRound (run [Skip 0, SetSettings (defaultSettings\<lparr>cyclesPerRound := 1\<rparr>) 0 0]
     (constructor defaultSettings)) = 2 \<and>
   cyclesPerRound (settings (run [Skip 0, SetSettings (defaultSettings\<lparr>cyclesPerRound := 1\<rparr>) 0 0]
     (constructor defaultSettings))) = 1 \<and>
   \<not> (cycleInRound (run [Skip 0, SetSettings (defaultSettings\<lparr>cyclesPerRound := 1\<rparr>) 0 0]
        (constructor defaultSettings)) \<le>
      cyclesPerRound (settings (run [Skip 0, SetSettings (defaultSettings\<lparr>cyclesPerRound := 1\<rparr>) 0 0]
        (constructor defaultSettings))))"
proof -
  have c: "cyclesPerRound defaultSettings = 4" by (simp add: defaultSettings_def)
  have v: "validSettings defaultSettings" "validSettings (defaultSettings\<lparr>cyclesPerRound := 1\<rparr>)"
    by (simp_all add: validSettings_def defaultSettings_def)
  have 1: "cycleInRound (run [Skip 0, SetSettings (defaultSettings\<lparr>cyclesPerRound := 1\<rparr>) 0 0]
     (constructor defaultSettings)) = 2"
    by (simp add: setSettings_fields skip_def advanceMode_cycleInRound constructor_fields c)
  have 2: "cyclesPerRound (settings (run [Skip 0, SetSettings (defaultSettings\<lparr>cyclesPerRound := 1\<rparr>) 0 0]
     (constructor defaultSettings))) = 1"
    by (simp add: setSettings_fields)
  show ?thesis using v 1 2 by simp
qed

text \<open>
  C8, as amended. In every state reached from the initial state the cycle counter is at
  least 1; and it is at most the cycles per round of the current settings when the
  initial settings have at least one cycle per round and every change of settings on the
  way sets the cycles per round no lower than the cycle counter then is.
\<close>

theorem C8_cycleInRound:
  "1 \<le> cycleInRound (run ops (constructor cfg)) \<and>
   (1 \<le> cyclesPerRound cfg \<and> cyclesFit ops (constructor cfg) \<longrightarrow>
      cycleInRound (run ops (constructor cfg)) \<le>
        cyclesPerRound (settings (run ops (constructor cfg))))"
proof -
  have 1: "1 \<le> cycleInRound (run ops (constructor cfg))"
    by (rule cycleInRound_run) (simp add: constructor_fields)
  have 2: "cycleInRound (run ops (constructor cfg)) \<le>
        cyclesPerRound (settings (run ops (constructor cfg)))"
    if c: "1 \<le> cyclesPerRound cfg" and f: "cyclesFit ops (constructor cfg)"
  proof -
    have "inRound (constructor cfg)"
      using c by (simp add: inRound_def constructor_fields)
    then have "inRound (run ops (constructor cfg))"
      using f by (rule inRound_run)
    then show ?thesis by (simp add: inRound_def)
  qed
  show ?thesis using 1 2 by blast
qed

theorem C8_cycleInRound_witness:
  "1 \<le> cyclesPerRound defaultSettings \<and>
   cyclesFit [Skip 0, SetSettings (defaultSettings\<lparr>cyclesPerRound := 2\<rparr>) 0 0, Skip 1,
      Skip 2, Skip 3, Skip 4, SetSettings (defaultSettings\<lparr>cyclesPerRound := 3\<rparr>) 5 5]
     (constructor defaultSettings) \<and>
   cyclesPerRound (settings (run [Skip 0, SetSettings (defaultSettings\<lparr>cyclesPerRound := 2\<rparr>) 0 0,
      Skip 1, Skip 2, Skip 3, Skip 4, SetSettings (defaultSettings\<lparr>cyclesPerRound := 3\<rparr>) 5 5]
     (constructor defaultSettings))) = 3 \<and>
   1 \<le> cycleInRound (run [Skip 0, SetSettings (defaultSettings\<lparr>cyclesPerRound := 2\<rparr>) 0 0,
      Skip 1, Skip 2, Skip 3, Skip 4, SetSettings (defaultSettings\<lparr>cyclesPerRound := 3\<rparr>) 5 5]
     (constructor defaultSettings)) \<and>
   cycleInRound (run [Skip 0, SetSettings (defaultSettings\<lparr>cyclesPerRound := 2\<rparr>) 0 0,
      Skip 1, Skip 2, Skip 3, Skip 4, SetSettings (defaultSettings\<lparr>cyclesPerRound := 3\<rparr>) 5 5]
     (constructor defaultSettings)) \<le> 3"
proof -
  let ?ops = "[Skip 0, SetSettings (defaultSettings\<lparr>cyclesPerRound := 2\<rparr>) 0 0, Skip 1,
      Skip 2, Skip 3, Skip 4, SetSettings (defaultSettings\<lparr>cyclesPerRound := 3\<rparr>) 5 5]"
  have c: "1 \<le> cyclesPerRound defaultSettings" by (simp add: defaultSettings_def)
  have f: "cyclesFit ?ops (constructor defaultSettings)"
    by (simp add: skip_def advanceMode_cycleInRound advanceMode_mode advanceMode_settings
        setSettings_fields constructor_fields defaultSettings_def)
  have s: "cyclesPerRound (settings (run ?ops (constructor defaultSettings))) = 3"
    by (simp add: setSettings_fields)
  have "1 \<le> cycleInRound (run ?ops (constructor defaultSettings)) \<and>
      cycleInRound (run ?ops (constructor defaultSettings)) \<le>
        cyclesPerRound (settings (run ?ops (constructor defaultSettings)))"
    using C8_cycleInRound [of ?ops defaultSettings] c f by blast
  then show ?thesis using c f s by simp
qed

text \<open>
  A click on the Long Break button makes the mode Long and leaves the round where it
  was.
\<close>

theorem C9_counterexample:
  "mode (constructor defaultSettings) = Work \<and>
   mode (setMode Long 0 (constructor defaultSettings)) = Long \<and>
   roundN (constructor defaultSettings) = 1 \<and>
   roundN (setMode Long 0 (constructor defaultSettings)) = 1 \<and>
   roundN (setMode Long 0 (constructor defaultSettings)) \<noteq>
     roundN (constructor defaultSettings) + 1"
  by (simp add: setMode_fields constructor_fields)

text \<open>
  C9, as amended. In every state reached from the initial state the round is at least 1.
  An operation other than a click on a mode button adds 1 to the round exactly when it
  takes the mode from Work or Short to Long, and otherwise leaves the round as it is; a
  click on a mode button sets the mode and leaves round and cycle as they are.
\<close>

theorem C9_round:
  "1 \<le> roundN (run ops (constructor cfg)) \<and>
   roundN (step x t) =
     (if \<not> isSetMode x \<and> mode t \<noteq> Long \<and> mode (step x t) = Long
      then roundN t + 1 else roundN t) \<and>
   mode (setMode m now t) = m \<and>
   roundN (setMode m now t) = roundN t \<and>
   cycleInRound (setMode m now t) = cycleInRound t"
proof -
  have 1: "1 \<le> roundN (run ops (constructor cfg))"
    by (rule roundN_run) (simp add: constructor_fields)
  show ?thesis
    using 1 roundN_step [of x t] by (simp add: setMode_fields)
qed

theorem C9_round_witness:
  "\<not> isSetMode (Skip 5) \<and>
   mode (constructor (defaultSettings\<lparr>cyclesPerRound := 1\<rparr>)) = Work \<and>
   mode (step (Skip 5) (constructor (defaultSettings\<lparr>cyclesPerRound := 1\<rparr>))) = Long \<and>
   roundN (constructor (defaultSettings\<lparr>cyclesPerRound := 1\<rparr>)) = 1 \<and>
   roundN (step (Skip 5) (constructor (defaultSettings\<lparr>cyclesPerRound := 1\<rparr>))) = 2 \<and>
   isSetMode (SetMode Long 5) \<and>
   mode (step (SetMode Long 5) (constructor defaultSettings)) = Long \<and>
   roundN (step (SetMode Long 5) (constructor defaultSettings)) = 1 \<and>
   1 \<le> roundN (run [Skip 0, SetMode Long 1, Skip 2] (constructor defaultSettings))"
proof -
  let ?e = "constructor (defaultSettings\<lparr>cyclesPerRound := 1\<rparr>)"
  let ?d = "constructor defaultSettings"
  have m: "mode (step (Skip 5) ?e) = Long"
    by (simp add: skip_def advanceMode_mode constructor_fields)
  have f: "mode ?e = Work" "roundN ?e = 1" "roundN ?d = 1"
    by (simp_all add: constructor_fields)
  note A = C9_round [of "[Skip 0, SetMode Long 1, Skip 2]" defaultSettings "Skip 5" ?e Long 5]
  note B = C9_round [of "[]" defaultSettings "SetMode Long 5" ?d Long 5]
  have "roundN (step (Skip 5) ?e) =
     (if \<not> isSetMode (Skip 5) \<and> mode ?e \<noteq> Long \<and> mode (step (Skip 5) ?e) = Long
      then roundN ?e + 1 else roundN ?e)"
    using A by blast
  then have 1: "roundN (step (Skip 5) ?e) = 2"
    unfolding m by (simp add: f)
  have "roundN (step (SetMode Long 5) ?d) =
     (if \<not> isSetMode (SetMode Long 5) \<and> mode ?d \<noteq> Long \<and>
         mode (step (SetMode Long 5) ?d) = Long
      then roundN ?d + 1 else roundN ?d)"
    using B by blast
  then have 2: "roundN (step (SetMode Long 5) ?d) = 1"
    by (simp add: f)
  have 3: "mode (step (SetMode Long 5) ?d) = Long"
    using B by simp
  have 4: "1 \<le> roundN (run [Skip 0, SetMode Long 1, Skip 2] ?d)"
    using A by blast
  have 5: "\<not> isSetMode (Skip 5)" "isSetMode (SetMode Long 5)" by simp_all
  show ?thesis using m f(1,2) 1 2 3 4 5 by blast
qed

section \<open>The earlier copy compared\<close>

text \<open>
  In the earlier copy \<open>setSettings\<close> never calls the listener, \<open>pause\<close> keeps the
  remaining time of the last tick, and the interval callback subtracts the time since the
  last tick from the stored remaining time, so that its result depends on that stored
  value. Between a start and the ticks that follow it, with a clock that does not run
  backwards, the callback of the earlier copy and the callback of \<^verbatim>\<open>app.js\<close> compute the
  same remaining time.
\<close>

lemma legacy_setSettings_silent:
  "filter isEmit (trace (legacy_setSettings cfg nowS t)) = filter isEmit (trace t)"
  by (simp add: legacy_setSettings_def legacy_pause_def legacy_start_def ensureTicker_def
      Let_def split: option.splits)

lemma legacy_setSettings_paused:
  "\<not> isRunning t \<Longrightarrow> trace (legacy_setSettings cfg nowS t) = trace t"
  by (simp add: legacy_setSettings_def legacy_pause_def Let_def)

lemma legacy_pause_keeps: "remainingMs (legacy_pause t) = remainingMs t"
  by (simp add: legacy_pause_def Let_def split: option.splits)

lemma legacy_tick_delta:
  assumes "isRunning t" "lastTick t = Some l" "l \<le> now" "now - l < remainingMs t"
  shows "legacy_tick now t =
      emit False (t\<lparr>lastTick := Some now, remainingMs := remainingMs t - (now - l)\<rparr>)"
  using assms by (simp add: legacy_tick_def Let_def max_def)

lemma legacy_start_fields:
  assumes "\<not> isRunning t"
  shows "isRunning (legacy_start now t)" "lastTick (legacy_start now t) = Some now"
    "remainingMs (legacy_start now t) = remainingMs t"
  using assms by (simp_all add: legacy_start_def ensureTicker_fields)

lemma legacy_ticks_agree:
  assumes "\<not> isRunning t" "t0 \<le> t1" "t1 \<le> t2" "t2 - t0 < remainingMs t"
  shows "remainingMs (legacy_tick t2 (legacy_tick t1 (legacy_start t0 t))) =
      remainingMs t - (t2 - t0)"
    and "remainingMs (tick t2 p2 a2 (tick t1 p1 a1 (start t0 t))) = remainingMs t - (t2 - t0)"
proof -
  let ?s = "legacy_start t0 t"
  have s: "isRunning ?s" "lastTick ?s = Some t0" "remainingMs ?s = remainingMs t"
    using legacy_start_fields [OF assms(1)] by simp_all
  have "t1 - t0 < remainingMs ?s" using assms s(3) by simp
  then have u: "legacy_tick t1 ?s =
      emit False (?s\<lparr>lastTick := Some t1, remainingMs := remainingMs ?s - (t1 - t0)\<rparr>)"
    using legacy_tick_delta [OF s(1,2) assms(2)] by simp
  let ?u = "legacy_tick t1 ?s"
  have f: "isRunning ?u" "lastTick ?u = Some t1" "remainingMs ?u = remainingMs t - (t1 - t0)"
    unfolding u using s by (simp_all add: emit_fields)
  have "t2 - t1 < remainingMs ?u" using assms f(3) by simp
  then have "legacy_tick t2 ?u =
      emit False (?u\<lparr>lastTick := Some t2, remainingMs := remainingMs ?u - (t2 - t1)\<rparr>)"
    using legacy_tick_delta [OF f(1,2) assms(3)] by simp
  then show "remainingMs (legacy_tick t2 ?u) = remainingMs t - (t2 - t0)"
    using f(3) by (simp add: emit_fields)
next
  let ?s = "start t0 t"
  have s: "isRunning ?s" "endAt ?s = Some (t0 + remainingMs t)"
    using assms(1) by (simp_all add: start_fields start_idle)
  have 1: "t1 < t0 + remainingMs t" using assms by simp
  have f: "isRunning (tick t1 p1 a1 ?s)" "endAt (tick t1 p1 a1 ?s) = Some (t0 + remainingMs t)"
    using tick_waiting_fields [OF s 1] by simp_all
  have 2: "t2 < t0 + remainingMs t" using assms by simp
  show "remainingMs (tick t2 p2 a2 (tick t1 p1 a1 ?s)) = remainingMs t - (t2 - t0)"
    using tick_waiting_fields(1) [OF f 2] by simp
qed

lemma legacy_tick_depends:
  "remainingMs (legacy_tick 250 (legacy_start 0 (constructor defaultSettings))) = 1499750 \<and>
   remainingMs (legacy_tick 250
      ((legacy_start 0 (constructor defaultSettings))\<lparr>remainingMs := 1000\<rparr>)) = 750"
  by (simp add: legacy_tick_def legacy_start_def ensureTicker_def constructor_def
      defaultSettings_def modeToMs_def emit_def Let_def)

text \<open>
  C2. In the earlier copy the periodic recompute does not derive the remaining time from
  an end time: it subtracts the time since the last tick from the stored value. Under the
  default settings, after a start at 1000 the session ends at 1501000; when the clock
  is set back and the interval timer fires at 900 and at 1150, \<^verbatim>\<open>app.js\<close> reports 1500100
  and then 1499850, which is \<open>max 0 (1501000 - 1150)\<close>, and the earlier copy reports 1500000
  and then 1499750. A firing at 1250 after a start at 1000 takes \<open>1250 - 1000\<close> off the
  stored value. And since a pause of the earlier copy keeps the value of the last tick,
  the 200 ms run between a start at 0 and a pause are never taken off: after a start at
  300 the firing at 550 reports 1499750 where \<^verbatim>\<open>app.js\<close>, paused at 200, reports 1499550.
\<close>

theorem C2_earlier_tick:
  "endAt (start 1000 (constructor defaultSettings)) = Some 1501000 \<and>
   remainingMs (tick 900 900 900 (start 1000 (constructor defaultSettings))) = 1500100 \<and>
   remainingMs (tick 1150 1150 1150 (tick 900 900 900 (start 1000 (constructor defaultSettings)))) =
     1499850 \<and>
   max 0 (1501000 - 1150) = (1499850::int) \<and>
   remainingMs (legacy_tick 900 (legacy_start 1000 (constructor defaultSettings))) = 1500000 \<and>
   remainingMs (legacy_tick 1150 (legacy_tick 900 (legacy_start 1000 (constructor defaultSettings)))) =
     1499750 \<and>
   remainingMs (legacy_tick 1250 (legacy_start 1000 (constructor defaultSettings))) =
     remainingMs (legacy_start 1000 (constructor defaultSettings)) - (1250 - 1000) \<and>
   remainingMs (legacy_tick 550 (legacy_start 300 (legacy_pause
      (legacy_start 0 (constructor defaultSettings))))) = 1499750 \<and>
   remainingMs (tick 550 550 550 (start 300 (pause 200
      (start 0 (constructor defaultSettings))))) = 1499550"
  by (simp add: legacy_tick_def legacy_start_def legacy_pause_def tick_def start_def pause_def
      ensureTicker_def constructor_def defaultSettings_def modeToMs_def emit_def Let_def)

text \<open>
  C6. In the earlier copy \<open>setSettings\<close> does not notify the listener. With the listener
  subscribed and the first paint done, a paused engine under the default settings that
  is given 30 work minutes has 1800000 remaining afterwards and has made no further
  call: the trace still ends with the snapshot of the first paint. \<^verbatim>\<open>app.js\<close> on the same
  input calls the listener with the snapshot of the new state. The earlier copy stays
  silent when the engine is running too.
\<close>

theorem C6_earlier_setSettings:
  "listener (emit True (onChange (constructor defaultSettings))) \<and>
   \<not> isRunning (emit True (onChange (constructor defaultSettings))) \<and>
   trace (emit True (onChange (constructor defaultSettings))) =
     [Emit (Snapshot Work 1500000 1 1 1500000 False True)] \<and>
   remainingMs (legacy_setSettings (defaultSettings\<lparr>workMinutes := 30\<rparr>) 5001
      (emit True (onChange (constructor defaultSettings)))) = 1800000 \<and>
   trace (legacy_setSettings (defaultSettings\<lparr>workMinutes := 30\<rparr>) 5001
      (emit True (onChange (constructor defaultSettings)))) =
     [Emit (Snapshot Work 1500000 1 1 1500000 False True)] \<and>
   trace (setSettings (defaultSettings\<lparr>workMinutes := 30\<rparr>) 5000 5001
      (emit True (onChange (constructor defaultSettings)))) =
     [Emit (Snapshot Work 1500000 1 1 1500000 False True),
      Emit (Snapshot Work 1800000 1 1 1800000 False True)] \<and>
   filter isEmit (trace (legacy_setSettings (defaultSettings\<lparr>workMinutes := 30\<rparr>) 5001
      (legacy_start 1000 (emit True (onChange (constructor defaultSettings)))))) =
     [Emit (Snapshot Work 1500000 1 1 1500000 False True)]"
  by (simp add: legacy_setSettings_def legacy_pause_def legacy_start_def setSettings_def
      pause_def ensureTicker_def emit_def onChange_def constructor_def defaultSettings_def
      modeToMs_def Let_def)

end
